theory Spec2Isabelle
  imports Main "HOL-Library.Word"
begin

section \<open>Data model of the backend client (package gooseclient)\<close>

text \<open>
  Values of Go's \<open>any\<close> that come out of \<open>encoding/json\<close>. A \<open>map[string]any\<close> is kept as
  an association list; a map that may be \<open>nil\<close> is an \<open>option\<close>. Numbers are carried as
  their literal, since no function of the repository computes with them.
\<close>

datatype json =
    JNull
  | JBool bool
  | JNumber string
  | JString string
  | JArray "json list"
  | JObject "(string \<times> json) list"

type_synonym jsonmap = "(string \<times> json) list"

text \<open>Go's \<open>error\<close> values as built by \<open>fmt.Errorf\<close>: the message, and the error wrapped
  by the \<open>%w\<close> verb when there is one.\<close>

datatype error = Error string "error option"

fun error_message :: "error \<Rightarrow> string" where
  "error_message (Error m _) = m"

text \<open>A run-time panic of the Go program.\<close>

datatype panic = NilPointerDereference

text \<open>\<open>type ToolCall struct\<close>\<close>

datatype ToolCall = ToolCall (tc_Name: string) (tc_Arguments: "jsonmap option")

text \<open>\<open>type MessageContent struct\<close> and \<open>type ToolResult struct\<close> refer to each other.
  Pointer fields are options, \<open>None\<close> for \<open>nil\<close>.\<close>

datatype MessageContent = MessageContent
    (mc_Type: string)
    (mc_Text: string)
    (mc_Data: string)
    (mc_MimeType: string)
    (mc_ID: string)
    (mc_ToolCall: "ToolCall option")
    (mc_ToolMetadata: "jsonmap option")
    (mc_ToolResult: "ToolResult option")
    (mc_ToolName: string)
    (mc_Arguments: "jsonmap option")
    (mc_Prompt: string)
    (mc_Thinking: string)
    (mc_Signature: string)
and ToolResult = ToolResult
    (tr_Content: "MessageContent list")
    (tr_IsError: bool)
    (tr_StructuredContent: "jsonmap option")

record MessageMetadata =
  UserVisible :: bool
  AgentVisible :: bool

record GooseMessage =
  gm_ID :: string
  gm_Role :: string
  gm_Created :: "64 word"
  gm_Content :: "MessageContent list"
  gm_Metadata :: "MessageMetadata option"

record TokenState =
  InputTokens :: "32 word"
  OutputTokens :: "32 word"
  TotalTokens :: "32 word"
  AccumulatedInputTokens :: "32 word"
  AccumulatedOutputTokens :: "32 word"
  AccumulatedTotalTokens :: "32 word"

record SSEEvent =
  sse_Type :: string
  sse_Message :: "GooseMessage option"
  sse_Error :: string
  sse_Reason :: string
  sse_TokenState :: "TokenState option"
  sse_Model :: string
  sse_Mode :: string

record StartAgentRequest =
  sar_WorkingDir :: string
  sar_RecipeID :: string

record StartAgentResponse =
  resp_ID :: string
  resp_Name :: string
  resp_WorkingDir :: string

record StopAgentRequest =
  stop_SessionID :: string

record ReplyRequest =
  UserMessage :: "GooseMessage option"
  SessionID :: string
  ConversationSoFar :: "GooseMessage list"

section \<open>Data model of the outbound side (package genai, as far as the translator uses it)\<close>

record FunctionCall =
  fc_ID :: string
  fc_Name :: string
  fc_Args :: "jsonmap option"

record FunctionResponse =
  fr_ID :: string
  fr_Name :: string
  fr_Response :: "jsonmap option"

record Blob =
  blob_Data :: string
  blob_MIMEType :: string

record Part =
  part_Text :: string
  part_Thought :: bool
  part_FunctionCall :: "FunctionCall option"
  part_FunctionResponse :: "FunctionResponse option"
  part_InlineData :: "Blob option"

text \<open>\<open>Parts []*Part\<close>: a list of pointers, each of which may be \<open>nil\<close>.\<close>

record Content =
  content_Parts :: "Part option list"
  content_Role :: string

record GenerateContentResponseUsageMetadata =
  PromptTokenCount :: "32 word"
  CandidatesTokenCount :: "32 word"
  TotalTokenCount :: "32 word"

text \<open>\<open>genai.NewPartFromText\<close>: a part with only its text set.\<close>

definition NewPartFromText :: "string \<Rightarrow> Part" where
  "NewPartFromText t =
     \<lparr>part_Text = t, part_Thought = False, part_FunctionCall = None,
      part_FunctionResponse = None, part_InlineData = None\<rparr>"

section \<open>The translator (package translator)\<close>

record ADKEventActions =
  StateDelta :: "jsonmap option"

record ADKEvent =
  evt_ID :: string
  evt_Time :: "64 word"
  evt_InvocationID :: string
  evt_Branch :: string
  evt_Author :: string
  evt_Partial :: bool
  evt_Content :: "Content option"
  evt_TurnComplete :: bool
  evt_Interrupted :: bool
  evt_ErrorCode :: string
  evt_ErrorMessage :: string
  evt_Actions :: "ADKEventActions option"
  evt_UsageMetadata :: "GenerateContentResponseUsageMetadata option"

text \<open>The two readings of the clock one translation takes: \<open>time.Now().UnixNano()\<close> for
  the event id and \<open>time.Now().Unix()\<close> for its time.\<close>

record clock =
  UnixNano :: "64 word"
  Unix :: "64 word"

text \<open>The verb \<open>%d\<close> of \<open>fmt.Sprintf\<close>: signed decimal. An \<open>int64\<close> is printed
  through its signed value.\<close>

fun decimal :: "nat \<Rightarrow> string" where
  "decimal n =
     (if n < 10 then [char_of (48 + n)]
      else decimal (n div 10) @ [char_of (48 + n mod 10)])"

declare decimal.simps [simp del]

definition Itoa :: "int \<Rightarrow> string" where
  "Itoa i = (if i < 0 then CHR ''-'' # decimal (nat (- i)) else decimal (nat i))"

text \<open>\<open>GooseTokenStateToUsageMetadata\<close>\<close>

definition GooseTokenStateToUsageMetadata :: "TokenState \<Rightarrow> GenerateContentResponseUsageMetadata" where
  "GooseTokenStateToUsageMetadata ts =
     \<lparr>PromptTokenCount = InputTokens ts,
      CandidatesTokenCount = OutputTokens ts,
      TotalTokenCount = TotalTokens ts\<rparr>"

text \<open>\<open>extractToolResultText\<close>. The loop over \<open>tr.Content\<close> returns at the first part that
  is text-typed and whose text is not empty; \<open>Marshal\<close> is \<open>json.Marshal\<close> on a
  \<open>map[string]any\<close>, a parameter.\<close>

fun first_text :: "MessageContent list \<Rightarrow> string option" where
  "first_text [] = None"
| "first_text (c # cs) =
     (if mc_Type c = ''text'' \<and> mc_Text c \<noteq> '''' then Some (mc_Text c) else first_text cs)"

definition extractToolResultText :: "(jsonmap \<Rightarrow> error + string) \<Rightarrow> ToolResult option \<Rightarrow> string" where
  "extractToolResultText Marshal tr =
     (case tr of
        None \<Rightarrow> ''''
      | Some r \<Rightarrow>
          (case first_text (tr_Content r) of
             Some t \<Rightarrow> t
           | None \<Rightarrow>
               (case tr_StructuredContent r of
                  None \<Rightarrow> ''''
                | Some sc \<Rightarrow>
                    (case Marshal sc of
                       Inr b \<Rightarrow> b
                     | Inl err \<Rightarrow> ''''))))"

text \<open>\<open>GooseMessageToADKContent\<close>. The loop over \<open>msg.Content\<close> appends to \<open>parts\<close>;
  reading \<open>mc.ToolCall.Name\<close> of a part without tool call, and \<open>msg.Role\<close> of an absent
  message, dereference \<open>nil\<close>.\<close>

fun content_loop ::
  "(jsonmap \<Rightarrow> error + string) \<Rightarrow> MessageContent list \<Rightarrow> Part option list \<Rightarrow> panic + Part option list" where
  "content_loop Marshal [] parts = Inr parts"
| "content_loop Marshal (mc # mcs) parts =
     (if mc_Type mc = ''text'' then
        content_loop Marshal mcs (parts @ [Some (NewPartFromText (mc_Text mc))])
      else if mc_Type mc = ''toolRequest'' then
        (case mc_ToolCall mc of
           None \<Rightarrow> Inl NilPointerDereference
         | Some tc \<Rightarrow>
             content_loop Marshal mcs
               (parts @ [Some \<lparr>part_Text = '''', part_Thought = False,
                  part_FunctionCall =
                    Some \<lparr>fc_ID = mc_ID mc, fc_Name = tc_Name tc, fc_Args = tc_Arguments tc\<rparr>,
                  part_FunctionResponse = None, part_InlineData = None\<rparr>]))
      else if mc_Type mc = ''toolResponse'' then
        (let resultText = extractToolResultText Marshal (mc_ToolResult mc) in
         content_loop Marshal mcs
           (parts @ [Some \<lparr>part_Text = '''', part_Thought = False, part_FunctionCall = None,
              part_FunctionResponse =
                Some \<lparr>fr_ID = mc_ID mc, fr_Name = '''',
                  fr_Response = Some [(''result'', JString resultText)]\<rparr>,
              part_InlineData = None\<rparr>]))
      else if mc_Type mc = ''thinking'' \<or> mc_Type mc = ''reasoning'' then
        (let text = (if mc_Thinking mc = '''' then mc_Text mc else mc_Thinking mc) in
         content_loop Marshal mcs (parts @ [Some ((NewPartFromText text)\<lparr>part_Thought := True\<rparr>)]))
      else content_loop Marshal mcs parts)"

definition GooseMessageToADKContent ::
  "(jsonmap \<Rightarrow> error + string) \<Rightarrow> GooseMessage option \<Rightarrow> panic + Content" where
  "GooseMessageToADKContent Marshal msg =
     (case msg of
        None \<Rightarrow> Inl NilPointerDereference
      | Some m \<Rightarrow>
          (let role = (if gm_Role m = ''assistant'' then ''model'' else gm_Role m) in
           case content_loop Marshal (gm_Content m) [] of
             Inl p \<Rightarrow> Inl p
           | Inr parts \<Rightarrow> Inr \<lparr>content_Parts = parts, content_Role = role\<rparr>))"

text \<open>The fields that every \<open>&ADKEvent{...}\<close> literal of \<open>GooseSSEEventToADKEvent\<close> sets
  (id, time, invocation id, author); the fields a literal leaves out have Go's zero
  value.\<close>

definition new_event :: "clock \<Rightarrow> string \<Rightarrow> ADKEvent" where
  "new_event now invocationID =
     \<lparr>evt_ID = ''evt_'' @ Itoa (sint (UnixNano now)), evt_Time = Unix now,
      evt_InvocationID = invocationID, evt_Branch = '''', evt_Author = ''goose'',
      evt_Partial = False, evt_Content = None, evt_TurnComplete = False,
      evt_Interrupted = False, evt_ErrorCode = '''', evt_ErrorMessage = '''',
      evt_Actions = None, evt_UsageMetadata = None\<rparr>"

text \<open>\<open>GooseSSEEventToADKEvent\<close> returns the pair \<open>(*ADKEvent, error)\<close>, or panics. Its
  caller passes the address of an event, so the event itself is never \<open>nil\<close>.\<close>

definition GooseSSEEventToADKEvent ::
  "(jsonmap \<Rightarrow> error + string) \<Rightarrow> clock \<Rightarrow> SSEEvent \<Rightarrow> string
     \<Rightarrow> panic + (ADKEvent option \<times> error option)" where
  "GooseSSEEventToADKEvent Marshal now sse invocationID =
     (if sse_Type sse = ''Message'' then
        (case GooseMessageToADKContent Marshal (sse_Message sse) of
           Inl p \<Rightarrow> Inl p
         | Inr content \<Rightarrow>
             Inr (Some ((new_event now invocationID)\<lparr>evt_Content := Some content\<rparr>), None))
      else if sse_Type sse = ''Finish'' then
        (let evt = (new_event now invocationID)\<lparr>evt_TurnComplete := True\<rparr> in
         case sse_TokenState sse of
           Some ts \<Rightarrow>
             Inr (Some (evt\<lparr>evt_UsageMetadata := Some (GooseTokenStateToUsageMetadata ts)\<rparr>), None)
         | None \<Rightarrow> Inr (Some evt, None))
      else if sse_Type sse = ''Error'' then
        Inr (Some ((new_event now invocationID)
               \<lparr>evt_ErrorCode := ''GOOSE_ERROR'', evt_ErrorMessage := sse_Error sse\<rparr>), None)
      else if sse_Type sse = ''Ping'' then Inr (None, None)
      else Inr (None, None))"


text \<open>\<open>ADKContentToGooseMessage\<close> and \<open>ADKRunSSERequestToReplyRequest\<close>. One part can add up to
  four content items; \<open>Marshal\<close> is \<open>json.Marshal\<close> (its error is discarded, leaving no bytes)
  and \<open>EncodeToString\<close> is \<open>base64.StdEncoding.EncodeToString\<close>.\<close>

definition text_item :: "string \<Rightarrow> MessageContent" where
  "text_item t =
     MessageContent ''text'' t '''' '''' '''' None None None '''' None '''' '''' ''''"

definition part_items ::
  "(jsonmap option \<Rightarrow> error + string) \<Rightarrow> (string \<Rightarrow> string) \<Rightarrow> Part \<Rightarrow> MessageContent list" where
  "part_items Marshal EncodeToString part =
     (if part_Text part \<noteq> '''' then [text_item (part_Text part)] else []) @
     (case part_FunctionCall part of
        None \<Rightarrow> []
      | Some fc \<Rightarrow>
          [MessageContent ''toolRequest'' '''' '''' '''' (fc_ID fc)
             (Some (ToolCall (fc_Name fc) (fc_Args fc))) None None '''' None '''' '''' '''']) @
     (case part_FunctionResponse part of
        None \<Rightarrow> []
      | Some fr \<Rightarrow>
          (let respText = (case Marshal (fr_Response fr) of Inr b \<Rightarrow> b | Inl err \<Rightarrow> '''') in
           [MessageContent ''toolResponse'' '''' '''' '''' (fr_ID fr) None None
              (Some (ToolResult [text_item respText] False None)) '''' None '''' '''' ''''])) @
     (case part_InlineData part of
        None \<Rightarrow> []
      | Some blob \<Rightarrow>
          [MessageContent ''image'' '''' (EncodeToString (blob_Data blob)) (blob_MIMEType blob)
             '''' None None None '''' None '''' '''' ''''])"

fun parts_loop ::
  "(jsonmap option \<Rightarrow> error + string) \<Rightarrow> (string \<Rightarrow> string) \<Rightarrow> Part option list
     \<Rightarrow> MessageContent list \<Rightarrow> panic + MessageContent list" where
  "parts_loop Marshal EncodeToString [] parts = Inr parts"
| "parts_loop Marshal EncodeToString (None # ps) parts = Inl NilPointerDereference"
| "parts_loop Marshal EncodeToString (Some part # ps) parts =
     parts_loop Marshal EncodeToString ps (parts @ part_items Marshal EncodeToString part)"

definition ADKContentToGooseMessage ::
  "(jsonmap option \<Rightarrow> error + string) \<Rightarrow> (string \<Rightarrow> string) \<Rightarrow> clock \<Rightarrow> Content option
     \<Rightarrow> panic + GooseMessage" where
  "ADKContentToGooseMessage Marshal EncodeToString now content =
     (case content of
        None \<Rightarrow> Inl NilPointerDereference
      | Some c \<Rightarrow>
          (let role = (if content_Role c = ''model'' then ''assistant'' else ''user'') in
           case parts_loop Marshal EncodeToString (content_Parts c) [] of
             Inl p \<Rightarrow> Inl p
           | Inr parts \<Rightarrow>
               Inr \<lparr>gm_ID = '''', gm_Role = role, gm_Created = Unix now, gm_Content = parts,
                    gm_Metadata = Some \<lparr>UserVisible = True, AgentVisible = True\<rparr>\<rparr>))"

definition ADKRunSSERequestToReplyRequest ::
  "(jsonmap option \<Rightarrow> error + string) \<Rightarrow> (string \<Rightarrow> string) \<Rightarrow> clock \<Rightarrow> string
     \<Rightarrow> Content option \<Rightarrow> panic + ReplyRequest" where
  "ADKRunSSERequestToReplyRequest Marshal EncodeToString now sessionID content =
     (case ADKContentToGooseMessage Marshal EncodeToString now content of
        Inl p \<Rightarrow> Inl p
      | Inr msg \<Rightarrow> Inr \<lparr>UserMessage = Some msg, SessionID = sessionID, ConversationSoFar = []\<rparr>)"

section \<open>The HTTP client of the backend (package gooseclient)\<close>

record Request =
  req_Method :: string
  req_URL :: string
  req_Header :: "(string \<times> string) list"
  req_Body :: "string option"

record Response =
  resp_StatusCode :: int
  resp_Body :: string

text \<open>\<open>type RunSSERequest struct\<close> of the handler, declared here because the decoder below
  produces it.\<close>

record RunSSERequest =
  NewMessage :: "Content option"

text \<open>
  Functions of Go's standard library that the repository calls, taken as parameters:
  the encoders and decoders of \<open>encoding/json\<close> at each type they are used at,
  \<open>http.NewRequestWithContext\<close> and the base64 encoder.
\<close>

record stdlib =
  json_Marshal_map :: "jsonmap \<Rightarrow> error + string"
  json_Marshal_Response :: "jsonmap option \<Rightarrow> error + string"
  json_Marshal_StartAgentRequest :: "StartAgentRequest \<Rightarrow> error + string"
  json_Marshal_StopAgentRequest :: "StopAgentRequest \<Rightarrow> error + string"
  json_Marshal_ReplyRequest :: "ReplyRequest \<Rightarrow> error + string"
  json_Marshal_ADKEvent :: "ADKEvent \<Rightarrow> error + string"
  json_Encode :: "json \<Rightarrow> error + string"
  json_Decode_StartAgentResponse :: "string \<Rightarrow> error + StartAgentResponse"
  json_Decode_RunSSERequest :: "string \<Rightarrow> error + RunSSERequest"
  json_Unmarshal_SSEEvent :: "string \<Rightarrow> error + SSEEvent"
  http_NewRequest :: "string \<Rightarrow> string \<Rightarrow> string option \<Rightarrow> error + Request"
  base64_EncodeToString :: "string \<Rightarrow> string"

text \<open>
  The \<open>*http.Client\<close> together with the server behind it: \<open>serve\<close> is what \<open>Do\<close> answers to a
  request given the requests handed to it before (an error when the backend cannot be
  reached or the context is cancelled), \<open>sent\<close> records every request handed to \<open>Do\<close>.
\<close>

record transport =
  serve :: "Request list \<Rightarrow> Request \<Rightarrow> error + Response"
  sent :: "Request list"

definition Do :: "transport \<Rightarrow> Request \<Rightarrow> (error + Response) \<times> transport" where
  "Do t req = (serve t (sent t) req, t\<lparr>sent := sent t @ [req]\<rparr>)"

text \<open>\<open>type Client struct\<close>; its \<open>HTTP\<close> field is the transport, threaded separately.\<close>

record Client =
  BaseURL :: string
  SecretKey :: string

text \<open>\<open>Header.Set\<close>\<close>

definition Header_Set :: "(string \<times> string) list \<Rightarrow> string \<Rightarrow> string \<Rightarrow> (string \<times> string) list" where
  "Header_Set h k v = filter (\<lambda>kv. fst kv \<noteq> k) h @ [(k, v)]"

text \<open>\<open>fmt.Errorf\<close> with a trailing \<open>%w\<close>.\<close>

definition Errorf_w :: "string \<Rightarrow> error \<Rightarrow> error" where
  "Errorf_w prefix err = Error (prefix @ error_message err) (Some err)"

text \<open>The headers both \<open>doJSON\<close> and \<open>Reply\<close> put on a request.\<close>

definition with_secret :: "Client \<Rightarrow> Request \<Rightarrow> Request" where
  "with_secret c req =
     (if SecretKey c \<noteq> '''' then
        req\<lparr>req_Header := Header_Set (req_Header req) ''X-Secret-Key'' (SecretKey c)\<rparr>
      else req)"

definition with_content_type :: "Request \<Rightarrow> Request" where
  "with_content_type req =
     req\<lparr>req_Header := Header_Set (req_Header req) ''Content-Type'' ''application/json''\<rparr>"

text \<open>
  \<open>doJSON\<close>. \<open>body\<close> is \<open>None\<close> for a \<open>nil\<close> body and otherwise the outcome of \<open>json.Marshal\<close>
  on it; \<open>result\<close> is \<open>None\<close> for a \<open>nil\<close> result and otherwise the decoder into the result's
  type. The value is the error, or what was decoded (\<open>None\<close> when nothing was to decode).
\<close>

definition doJSON ::
  "stdlib \<Rightarrow> Client \<Rightarrow> transport \<Rightarrow> string \<Rightarrow> string \<Rightarrow> (error + string) option
     \<Rightarrow> (string \<Rightarrow> error + 'r) option \<Rightarrow> (error + 'r option) \<times> transport" where
  "doJSON lib c t method path body result =
     (case body of
        Some (Inl err) \<Rightarrow> (Inl (Errorf_w ''marshal request body: '' err), t)
      | _ \<Rightarrow>
          (case http_NewRequest lib method (BaseURL c @ path)
                  (case body of Some (Inr data) \<Rightarrow> Some data | _ \<Rightarrow> None) of
             Inl err \<Rightarrow> (Inl (Errorf_w ''create request: '' err), t)
           | Inr req0 \<Rightarrow>
               (let req = with_secret c (if body \<noteq> None then with_content_type req0 else req0) in
                case Do t req of
                  (Inl err, t') \<Rightarrow> (Inl (Errorf_w ''execute request: '' err), t')
                | (Inr resp, t') \<Rightarrow>
                    if resp_StatusCode resp < 200 \<or> resp_StatusCode resp \<ge> 300 then
                      (Inl (Error (''unexpected status '' @ Itoa (resp_StatusCode resp) @ '': '' @
                                   resp_Body resp) None), t')
                    else
                      (case result of
                         None \<Rightarrow> (Inr None, t')
                       | Some decode \<Rightarrow>
                           (case decode (resp_Body resp) of
                              Inl err \<Rightarrow> (Inl (Errorf_w ''decode response: '' err), t')
                            | Inr r \<Rightarrow> (Inr (Some r), t'))))))"

definition zero_StartAgentResponse :: StartAgentResponse where
  "zero_StartAgentResponse = \<lparr>resp_ID = '''', resp_Name = '''', resp_WorkingDir = ''''\<rparr>"

text \<open>\<open>Client.StartAgent\<close>\<close>

definition StartAgent ::
  "stdlib \<Rightarrow> Client \<Rightarrow> transport \<Rightarrow> StartAgentRequest \<Rightarrow> (error + StartAgentResponse) \<times> transport" where
  "StartAgent lib c t req =
     (case doJSON lib c t ''POST'' ''/agent/start'' (Some (json_Marshal_StartAgentRequest lib req))
             (Some (json_Decode_StartAgentResponse lib)) of
        (Inl err, t') \<Rightarrow> (Inl err, t')
      | (Inr decoded, t') \<Rightarrow>
          (Inr (case decoded of Some resp \<Rightarrow> resp | None \<Rightarrow> zero_StartAgentResponse), t'))"

text \<open>\<open>Client.StopAgent\<close>: the error of \<open>doJSON\<close>, \<open>None\<close> for \<open>nil\<close>.\<close>

definition StopAgent :: "stdlib \<Rightarrow> Client \<Rightarrow> transport \<Rightarrow> string \<Rightarrow> error option \<times> transport" where
  "StopAgent lib c t sessionID =
     (case doJSON lib c t ''POST'' ''/agent/stop''
             (Some (json_Marshal_StopAgentRequest lib \<lparr>stop_SessionID = sessionID\<rparr>))
             (None :: (string \<Rightarrow> error + unit) option) of
        (Inl err, t') \<Rightarrow> (Some err, t')
      | (Inr decoded, t') \<Rightarrow> (None, t'))"

text \<open>\<open>strings.HasPrefix\<close> and \<open>strings.TrimPrefix\<close>\<close>

definition HasPrefix :: "string \<Rightarrow> string \<Rightarrow> bool" where
  "HasPrefix s p = (take (length p) s = p)"

definition TrimPrefix :: "string \<Rightarrow> string \<Rightarrow> string" where
  "TrimPrefix s p = (if HasPrefix s p then drop (length p) s else s)"

text \<open>
  The \<open>bufio.Scanner\<close> of \<open>Client.Reply\<close>: \<open>bufio.NewScanner(resp.Body)\<close>, with the split
  function \<open>bufio.ScanLines\<close> and a buffer that grows to \<open>bufio.MaxScanTokenSize\<close> bytes and no
  further, since \<open>Reply\<close> never calls \<open>scanner.Buffer\<close>. A token is a line without its end
  (one newline, and one carriage return before it if there is one); the last line needs no
  newline, and nothing left at the end of the input is no token. A line has to lie in the
  buffer together with its newline: at a line that does not fit, \<open>Scan\<close> returns \<open>false\<close> and
  keeps the error \<open>bufio.ErrTooLong\<close>, which \<open>Reply\<close> never reads (it has no call of
  \<open>scanner.Err\<close>). The body is the bytes that the reads of \<open>resp.Body\<close> deliver before the
  end of the input or a read error.
\<close>

definition MaxScanTokenSize :: nat where
  "MaxScanTokenSize = 64 * 1024"

text \<open>\<open>dropCR\<close> of package bufio\<close>

definition dropCR :: "string \<Rightarrow> string" where
  "dropCR data = (if data \<noteq> [] \<and> last data = CHR 0x0D then butlast data else data)"

text \<open>The tokens a scanner yields until \<open>Scan\<close> returns \<open>false\<close>, from the bytes not yet read
  and the bytes of the current line read so far.\<close>

fun Scan :: "string \<Rightarrow> string \<Rightarrow> string list" where
  "Scan [] data =
     (if data = [] then []
      else if length data < MaxScanTokenSize then [dropCR data]
      else [])"
| "Scan (b # rest) data =
     (if b = CHR 0x0A then
        (if length data < MaxScanTokenSize then dropCR data # Scan rest [] else [])
      else Scan rest (data @ [b]))"

text \<open>\<open>for scanner.Scan() { line := scanner.Text(); ... }\<close>: the lines the loop of \<open>Reply\<close> is
  run on.\<close>

definition scanner_lines :: "string \<Rightarrow> string list" where
  "scanner_lines body = Scan body []"

text \<open>
  The goroutine of \<open>Client.Reply\<close>: the loop over the scanner's lines. \<open>ch\<close> holds the events
  handed over on the channel so far; \<open>done n\<close> tells whether the \<open>select\<close> at a send takes
  \<open>ctx.Done()\<close> when \<open>n\<close> events have been handed over. The value is all that the channel
  delivers before it is closed.
\<close>

fun scan_loop ::
  "(string \<Rightarrow> error + SSEEvent) \<Rightarrow> (nat \<Rightarrow> bool) \<Rightarrow> string list \<Rightarrow> SSEEvent list \<Rightarrow> SSEEvent list" where
  "scan_loop Unmarshal done [] ch = ch"
| "scan_loop Unmarshal done (line # rest) ch =
     (if line = '''' \<or> HasPrefix line '':'' then scan_loop Unmarshal done rest ch
      else if HasPrefix line ''data: '' then
        (let payload = TrimPrefix line ''data: '' in
         case Unmarshal payload of
           Inl err \<Rightarrow> scan_loop Unmarshal done rest ch
         | Inr event \<Rightarrow>
             if done (length ch) then ch
             else scan_loop Unmarshal done rest (ch @ [event]))
      else scan_loop Unmarshal done rest ch)"

text \<open>\<open>Client.Reply\<close>: the error, or the events its channel delivers.\<close>

definition Reply ::
  "stdlib \<Rightarrow> Client \<Rightarrow> transport \<Rightarrow> (nat \<Rightarrow> bool) \<Rightarrow> ReplyRequest
     \<Rightarrow> (error + SSEEvent list) \<times> transport" where
  "Reply lib c t done req =
     (case json_Marshal_ReplyRequest lib req of
        Inl err \<Rightarrow> (Inl (Errorf_w ''marshal request body: '' err), t)
      | Inr data \<Rightarrow>
          (case http_NewRequest lib ''POST'' (BaseURL c @ ''/reply'') (Some data) of
             Inl err \<Rightarrow> (Inl (Errorf_w ''create request: '' err), t)
           | Inr httpReq0 \<Rightarrow>
               (let httpReq = with_secret c (with_content_type httpReq0) in
                case Do t httpReq of
                  (Inl err, t') \<Rightarrow> (Inl (Errorf_w ''execute request: '' err), t')
                | (Inr resp, t') \<Rightarrow>
                    if resp_StatusCode resp \<noteq> 200 then
                      (Inl (Error (''unexpected status '' @ Itoa (resp_StatusCode resp) @ '': '' @
                                   resp_Body resp) None), t')
                    else
                      (Inr (scan_loop (json_Unmarshal_SSEEvent lib) done
                              (scanner_lines (resp_Body resp)) []), t'))))"

section \<open>The session manager (package proxy, session.go)\<close>

text \<open>\<open>type SessionManager struct\<close>: the two Go maps are partial functions. The mutex is
  left out of this record: one call runs from its first line to its return here, and the
  interleaving of several calls is modelled on its own further down. The client is passed
  to each method.\<close>

record SessionManager =
  adkToGoose :: "string \<rightharpoonup> string"
  gooseToADK :: "string \<rightharpoonup> string"
  workingDir :: string

definition NewSessionManager :: "string \<Rightarrow> SessionManager" where
  "NewSessionManager wd = \<lparr>adkToGoose = Map.empty, gooseToADK = Map.empty, workingDir = wd\<rparr>"

text \<open>\<open>SessionManager.GetOrCreate\<close>: the look-up under the read lock, the second look-up
  under the write lock, then the session-start call and the two stores.\<close>

definition GetOrCreate ::
  "stdlib \<Rightarrow> Client \<Rightarrow> SessionManager \<Rightarrow> transport \<Rightarrow> string
     \<Rightarrow> (error + string) \<times> SessionManager \<times> transport" where
  "GetOrCreate lib c sm t adkSessionID =
     (case adkToGoose sm adkSessionID of
        Some gooseID \<Rightarrow> (Inr gooseID, sm, t)
      | None \<Rightarrow>
          (case adkToGoose sm adkSessionID of
             Some gooseID \<Rightarrow> (Inr gooseID, sm, t)
           | None \<Rightarrow>
               (case StartAgent lib c t \<lparr>sar_WorkingDir = workingDir sm, sar_RecipeID = ''''\<rparr> of
                  (Inl err, t') \<Rightarrow>
                    (Inl (Errorf_w (''start goose agent for ADK session '' @ adkSessionID @ '': '') err),
                     sm, t')
                | (Inr resp, t') \<Rightarrow>
                    (Inr (resp_ID resp),
                     sm\<lparr>adkToGoose := (adkToGoose sm)(adkSessionID \<mapsto> resp_ID resp),
                        gooseToADK := (gooseToADK sm)(resp_ID resp \<mapsto> adkSessionID)\<rparr>,
                     t'))))"

text \<open>\<open>SessionManager.Stop\<close>: the error returned, \<open>None\<close> for \<open>nil\<close>.\<close>

definition Stop ::
  "stdlib \<Rightarrow> Client \<Rightarrow> SessionManager \<Rightarrow> transport \<Rightarrow> string
     \<Rightarrow> error option \<times> SessionManager \<times> transport" where
  "Stop lib c sm t adkSessionID =
     (case adkToGoose sm adkSessionID of
        None \<Rightarrow> (Some (Error (''no goose session for ADK session '' @ adkSessionID) None), sm, t)
      | Some gooseID \<Rightarrow>
          (let sm' = sm\<lparr>adkToGoose := (adkToGoose sm)(adkSessionID := None),
                        gooseToADK := (gooseToADK sm)(gooseID := None)\<rparr> in
           case StopAgent lib c t gooseID of
             (err, t') \<Rightarrow> (err, sm', t')))"

text \<open>\<open>SessionManager.GetGooseSessionID\<close>\<close>

definition GetGooseSessionID :: "SessionManager \<Rightarrow> string \<Rightarrow> string option" where
  "GetGooseSessionID sm adkSessionID = adkToGoose sm adkSessionID"

section \<open>The handler (package proxy, handler.go)\<close>

text \<open>What a handler has done to its \<open>http.ResponseWriter\<close>: the header map, the status
  once written, and the chunks written to the body.\<close>

record ResponseWriter =
  rw_Header :: "(string \<times> string) list"
  rw_Status :: "int option"
  rw_Body :: "string list"

definition new_ResponseWriter :: ResponseWriter where
  "new_ResponseWriter = \<lparr>rw_Header = [], rw_Status = None, rw_Body = []\<rparr>"

definition WriteHeader :: "ResponseWriter \<Rightarrow> int \<Rightarrow> ResponseWriter" where
  "WriteHeader w status = (if rw_Status w = None then w\<lparr>rw_Status := Some status\<rparr> else w)"

definition Write :: "ResponseWriter \<Rightarrow> string \<Rightarrow> ResponseWriter" where
  "Write w data = (let w' = WriteHeader w 200 in w'\<lparr>rw_Body := rw_Body w' @ [data]\<rparr>)"

definition writeJSON :: "stdlib \<Rightarrow> ResponseWriter \<Rightarrow> int \<Rightarrow> json \<Rightarrow> ResponseWriter" where
  "writeJSON lib w status v =
     (let w' = WriteHeader (w\<lparr>rw_Header := Header_Set (rw_Header w) ''Content-Type'' ''application/json''\<rparr>)
                 status in
      case json_Encode lib v of
        Inl err \<Rightarrow> w'
      | Inr encoded \<Rightarrow> Write w' encoded)"

definition writeError :: "stdlib \<Rightarrow> ResponseWriter \<Rightarrow> int \<Rightarrow> string \<Rightarrow> ResponseWriter" where
  "writeError lib w status msg = writeJSON lib w status (JObject [(''error'', JString msg)])"

text \<open>The inbound request as the handlers read it: the path values, the body, whether the
  writer is an \<open>http.Flusher\<close>, the cancellation of its context as the streaming loops
  observe it, and the clock readings (one for the request, one for each event).\<close>

record ServerRequest =
  path_app :: string
  path_user :: string
  path_session :: string
  request_body :: string
  is_Flusher :: bool
  ctx_Done :: "nat \<Rightarrow> bool"
  request_time :: clock
  event_time :: "nat \<Rightarrow> clock"

text \<open>The \<open>for\<close>/\<open>select\<close> loop of \<open>handleRunSSE\<close> over the events the channel delivers; \<open>n\<close>
  counts the events received. A panic of the translator leaves the handler with what was
  written so far.\<close>

fun pump ::
  "stdlib \<Rightarrow> ServerRequest \<Rightarrow> string \<Rightarrow> SSEEvent list \<Rightarrow> nat \<Rightarrow> ResponseWriter
     \<Rightarrow> panic option \<times> ResponseWriter" where
  "pump lib r invocationID [] n w = (None, w)"
| "pump lib r invocationID (sse # eventCh) n w =
     (if ctx_Done r n then (None, w)
      else
        (case GooseSSEEventToADKEvent (json_Marshal_map lib) (event_time r n) sse invocationID of
           Inl p \<Rightarrow> (Some p, w)
         | Inr (adkEvent, Some err) \<Rightarrow> pump lib r invocationID eventCh (Suc n) w
         | Inr (None, None) \<Rightarrow> pump lib r invocationID eventCh (Suc n) w
         | Inr (Some evt, None) \<Rightarrow>
             (case json_Marshal_ADKEvent lib evt of
                Inl err \<Rightarrow> pump lib r invocationID eventCh (Suc n) w
              | Inr jsonBytes \<Rightarrow>
                  pump lib r invocationID eventCh (Suc n)
                    (Write w (''data: '' @ jsonBytes @ [CHR 0x0A, CHR 0x0A])))))"

text \<open>\<open>Handler.handleRunSSE\<close>\<close>

definition handleRunSSE ::
  "stdlib \<Rightarrow> Client \<Rightarrow> SessionManager \<Rightarrow> transport \<Rightarrow> ServerRequest
     \<Rightarrow> panic option \<times> ResponseWriter \<times> SessionManager \<times> transport" where
  "handleRunSSE lib c sm t r =
     (let adkSessionID = path_session r; w = new_ResponseWriter in
      case json_Decode_RunSSERequest lib (request_body r) of
        Inl err \<Rightarrow> (None, writeError lib w 400 (''decode request: '' @ error_message err), sm, t)
      | Inr req \<Rightarrow>
          if NewMessage req = None then
            (None, writeError lib w 400 ''new_message is required'', sm, t)
          else
            (case GetOrCreate lib c sm t adkSessionID of
               (Inl err, sm', t') \<Rightarrow>
                 (None, writeError lib w 500 (''session lookup: '' @ error_message err), sm', t')
             | (Inr gooseSessionID, sm', t') \<Rightarrow>
                 (case ADKRunSSERequestToReplyRequest (json_Marshal_Response lib)
                         (base64_EncodeToString lib) (request_time r) gooseSessionID (NewMessage req) of
                    Inl p \<Rightarrow> (Some p, w, sm', t')
                  | Inr replyReq \<Rightarrow>
                      (case Reply lib c t' (ctx_Done r) replyReq of
                         (Inl err, t'') \<Rightarrow>
                           (None, writeError lib w 502 (''goose reply: '' @ error_message err), sm', t'')
                       | (Inr eventCh, t'') \<Rightarrow>
                           (let w1 = w\<lparr>rw_Header :=
                                  Header_Set (Header_Set (Header_Set (rw_Header w)
                                    ''Content-Type'' ''text/event-stream'')
                                    ''Cache-Control'' ''no-cache'')
                                    ''Connection'' ''keep-alive''\<rparr> in
                            if \<not> is_Flusher r then
                              (None, writeError lib w1 500 ''streaming not supported'', sm', t'')
                            else
                              (let invocationID = ''inv_'' @ Itoa (sint (UnixNano (request_time r))) in
                               case pump lib r invocationID eventCh 0 w1 of
                                 (p, w2) \<Rightarrow> (p, w2, sm', t'')))))))"


section \<open>Concurrent calls of GetOrCreate\<close>

text \<open>
  Several goroutines run \<open>SessionManager.GetOrCreate\<close> for one external id at the same
  time. Each is at one of the statements of the method, with the local variables it has
  set; a step runs one statement of one goroutine.
\<close>

datatype pc =
    AtRLock  \<comment> \<open>\<open>sm.mu.RLock()\<close>\<close>
  | AtLookup  \<comment> \<open>\<open>if gooseID, ok := sm.adkToGoose[adkSessionID]; ok\<close>, read lock held\<close>
  | AtRUnlockReturn string  \<comment> \<open>\<open>sm.mu.RUnlock(); return gooseID, nil\<close>\<close>
  | AtRUnlock  \<comment> \<open>\<open>sm.mu.RUnlock()\<close>\<close>
  | AtLock  \<comment> \<open>\<open>sm.mu.Lock(); defer sm.mu.Unlock()\<close>\<close>
  | AtRecheck  \<comment> \<open>the second look-up, write lock held\<close>
  | AtStartAgent  \<comment> \<open>\<open>resp, err := sm.client.StartAgent(...)\<close>\<close>
  | AtStoreForward StartAgentResponse  \<comment> \<open>\<open>sm.adkToGoose[adkSessionID] = resp.ID\<close>\<close>
  | AtStoreReverse StartAgentResponse  \<comment> \<open>\<open>sm.gooseToADK[resp.ID] = adkSessionID\<close>\<close>
  | AtUnlockReturn "error + string"  \<comment> \<open>the deferred \<open>Unlock\<close>, then the return\<close>
  | Returned "error + string"

text \<open>
  What the goroutines share: the session manager's tables, its \<open>sync.RWMutex\<close> (the number
  of read locks held and whether the write lock is held) and the transport. \<open>sh_calls\<close> is
  not in the program: it logs the outcome of every session-start call made.
\<close>

record shared =
  sh_sm :: SessionManager
  sh_readers :: nat
  sh_writer :: bool
  sh_net :: transport
  sh_calls :: "(error + StartAgentResponse) list"

definition initial :: "SessionManager \<Rightarrow> transport \<Rightarrow> shared" where
  "initial sm t = \<lparr>sh_sm = sm, sh_readers = 0, sh_writer = False, sh_net = t, sh_calls = []\<rparr>"

text \<open>One statement of one goroutine; \<open>None\<close> when it is blocked on the mutex or has
  returned. \<open>RLock\<close> waits while the write lock is held, \<open>Lock\<close> while any lock is held.
  Go's \<open>sync.RWMutex\<close> also holds new readers back while a writer waits: that takes
  interleavings away and adds none, so what holds of every run here holds of every run of
  the program.\<close>

fun step_thread :: "stdlib \<Rightarrow> Client \<Rightarrow> string \<Rightarrow> pc \<Rightarrow> shared \<Rightarrow> (pc \<times> shared) option" where
  "step_thread lib c a AtRLock sh =
     (if sh_writer sh then None
      else Some (AtLookup, sh\<lparr>sh_readers := Suc (sh_readers sh)\<rparr>))"
| "step_thread lib c a AtLookup sh =
     Some (case adkToGoose (sh_sm sh) a of
             Some gooseID \<Rightarrow> AtRUnlockReturn gooseID
           | None \<Rightarrow> AtRUnlock, sh)"
| "step_thread lib c a (AtRUnlockReturn gooseID) sh =
     Some (Returned (Inr gooseID), sh\<lparr>sh_readers := sh_readers sh - 1\<rparr>)"
| "step_thread lib c a AtRUnlock sh =
     Some (AtLock, sh\<lparr>sh_readers := sh_readers sh - 1\<rparr>)"
| "step_thread lib c a AtLock sh =
     (if sh_writer sh \<or> sh_readers sh \<noteq> 0 then None
      else Some (AtRecheck, sh\<lparr>sh_writer := True\<rparr>))"
| "step_thread lib c a AtRecheck sh =
     Some (case adkToGoose (sh_sm sh) a of
             Some gooseID \<Rightarrow> AtUnlockReturn (Inr gooseID)
           | None \<Rightarrow> AtStartAgent, sh)"
| "step_thread lib c a AtStartAgent sh =
     (case StartAgent lib c (sh_net sh)
             \<lparr>sar_WorkingDir = workingDir (sh_sm sh), sar_RecipeID = ''''\<rparr> of
        (Inl err, t') \<Rightarrow>
          Some (AtUnlockReturn
                  (Inl (Errorf_w (''start goose agent for ADK session '' @ a @ '': '') err)),
                sh\<lparr>sh_net := t', sh_calls := sh_calls sh @ [Inl err]\<rparr>)
      | (Inr resp, t') \<Rightarrow>
          Some (AtStoreForward resp, sh\<lparr>sh_net := t', sh_calls := sh_calls sh @ [Inr resp]\<rparr>))"
| "step_thread lib c a (AtStoreForward resp) sh =
     Some (AtStoreReverse resp,
           sh\<lparr>sh_sm := (sh_sm sh)\<lparr>adkToGoose := (adkToGoose (sh_sm sh))(a \<mapsto> resp_ID resp)\<rparr>\<rparr>)"
| "step_thread lib c a (AtStoreReverse resp) sh =
     Some (AtUnlockReturn (Inr (resp_ID resp)),
           sh\<lparr>sh_sm := (sh_sm sh)\<lparr>gooseToADK := (gooseToADK (sh_sm sh))(resp_ID resp \<mapsto> a)\<rparr>\<rparr>)"
| "step_thread lib c a (AtUnlockReturn r) sh = Some (Returned r, sh\<lparr>sh_writer := False\<rparr>)"
| "step_thread lib c a (Returned r) sh = None"

text \<open>A schedule names, step by step, the goroutine that runs next; naming one that is
  blocked or has returned changes nothing. Every interleaving of the calls is the run of
  some schedule.\<close>

fun exec ::
  "stdlib \<Rightarrow> Client \<Rightarrow> string \<Rightarrow> nat list \<Rightarrow> pc list \<times> shared \<Rightarrow> pc list \<times> shared" where
  "exec lib c a [] cfg = cfg"
| "exec lib c a (i # sched) (pcs, sh) =
     (if i < length pcs then
        (case step_thread lib c a (pcs ! i) sh of
           Some (p, sh') \<Rightarrow> exec lib c a sched (pcs[i := p], sh')
         | None \<Rightarrow> exec lib c a sched (pcs, sh))
      else exec lib c a sched (pcs, sh))"

definition is_Returned :: "pc \<Rightarrow> bool" where
  "is_Returned p = (case p of Returned r \<Rightarrow> True | _ \<Rightarrow> False)"

text \<open>The statements run with the write lock held.\<close>

definition in_write :: "pc \<Rightarrow> bool" where
  "in_write p =
     (case p of
        AtRecheck \<Rightarrow> True
      | AtStartAgent \<Rightarrow> True
      | AtStoreForward resp \<Rightarrow> True
      | AtStoreReverse resp \<Rightarrow> True
      | AtUnlockReturn r \<Rightarrow> True
      | _ \<Rightarrow> False)"

text \<open>The session-start calls that succeeded, and whether one failed.\<close>

definition created :: "shared \<Rightarrow> StartAgentResponse list" where
  "created sh = map projr (filter (\<lambda>x. \<not> isl x) (sh_calls sh))"

definition some_call_failed :: "shared \<Rightarrow> bool" where
  "some_call_failed sh = (\<exists>x \<in> set (sh_calls sh). isl x)"

text \<open>What holds of a goroutine at each statement, given the shared state: an id it is
  about to return is the one in the forward table, an error it is about to return stems
  from a failed call, and it makes or has made the one successful call only while the
  forward table has no entry yet.\<close>

definition result_ok :: "string \<Rightarrow> shared \<Rightarrow> error + string \<Rightarrow> bool" where
  "result_ok a sh r =
     (case r of
        Inr g \<Rightarrow> adkToGoose (sh_sm sh) a = Some g
      | Inl e \<Rightarrow> some_call_failed sh)"

definition unset_means_none_created :: "string \<Rightarrow> shared \<Rightarrow> bool" where
  "unset_means_none_created a sh = (adkToGoose (sh_sm sh) a = None \<longrightarrow> created sh = [])"

definition pc_ok :: "string \<Rightarrow> shared \<Rightarrow> pc \<Rightarrow> bool" where
  "pc_ok a sh p =
     (case p of
        AtRUnlockReturn g \<Rightarrow> adkToGoose (sh_sm sh) a = Some g
      | AtRecheck \<Rightarrow> unset_means_none_created a sh
      | AtStartAgent \<Rightarrow> adkToGoose (sh_sm sh) a = None \<and> created sh = []
      | AtStoreForward resp \<Rightarrow> adkToGoose (sh_sm sh) a = None \<and> created sh = [resp]
      | AtStoreReverse resp \<Rightarrow> adkToGoose (sh_sm sh) a = Some (resp_ID resp)
      | AtUnlockReturn r \<Rightarrow> unset_means_none_created a sh \<and> result_ok a sh r
      | Returned r \<Rightarrow> result_ok a sh r
      | _ \<Rightarrow> True)"

text \<open>At most one goroutine is at a statement under the write lock, and one is exactly
  when the lock is held.\<close>

definition one_writer :: "pc list \<Rightarrow> bool \<Rightarrow> bool" where
  "one_writer pcs w =
     ((\<forall>i j. i < length pcs \<and> j < length pcs \<and> in_write (pcs ! i) \<and> in_write (pcs ! j) \<longrightarrow> i = j) \<and>
      ((\<exists>i < length pcs. in_write (pcs ! i)) = w))"

text \<open>At most one call succeeded, and an entry of the forward table is the id that call
  returned; while the write lock is free, no entry means no call succeeded.\<close>

definition calls_ok :: "string \<Rightarrow> shared \<Rightarrow> bool" where
  "calls_ok a sh =
     (length (created sh) \<le> 1 \<and>
      (\<forall>g. adkToGoose (sh_sm sh) a = Some g \<longrightarrow> map resp_ID (created sh) = [g]) \<and>
      (\<not> sh_writer sh \<longrightarrow> unset_means_none_created a sh))"

text \<open>The invariant of every run.\<close>

definition call_inv :: "string \<Rightarrow> pc list \<times> shared \<Rightarrow> bool" where
  "call_inv a cfg =
     (case cfg of (pcs, sh) \<Rightarrow>
        one_writer pcs (sh_writer sh) \<and> calls_ok a sh \<and> (\<forall>i < length pcs. pc_ok a sh (pcs ! i)))"

text \<open>The statements run with a read lock held, and a bound on the statements a goroutine
  has yet to run.\<close>

definition in_read :: "pc \<Rightarrow> bool" where
  "in_read p =
     (case p of
        AtLookup \<Rightarrow> True
      | AtRUnlockReturn g \<Rightarrow> True
      | AtRUnlock \<Rightarrow> True
      | _ \<Rightarrow> False)"

fun remaining :: "pc \<Rightarrow> nat" where
  "remaining AtRLock = 9"
| "remaining AtLookup = 8"
| "remaining AtRUnlock = 7"
| "remaining AtLock = 6"
| "remaining AtRecheck = 5"
| "remaining AtStartAgent = 4"
| "remaining (AtStoreForward resp) = 3"
| "remaining (AtStoreReverse resp) = 2"
| "remaining (AtRUnlockReturn g) = 1"
| "remaining (AtUnlockReturn r) = 1"
| "remaining (Returned r) = 0"

text \<open>The mutex counts the goroutines that hold a read lock.\<close>

definition readers_counted :: "pc list \<times> shared \<Rightarrow> bool" where
  "readers_counted cfg = (case cfg of (pcs, sh) \<Rightarrow> sh_readers sh = length (filter in_read pcs))"

section \<open>Concurrent calls of all methods of the session manager\<close>

text \<open>
  The tables are unexported fields, read and written by four methods only: \<open>GetOrCreate\<close>,
  \<open>Stop\<close>, \<open>GetGooseSessionID\<close> and \<open>ListMappedSessions\<close>. This section lets goroutines run
  any of the four at the same time, each with an external id of its own. The statements of
  \<open>GetOrCreate\<close> are those above; here are the statements of \<open>Stop\<close>, with the backend id it
  has looked up.
\<close>

datatype stop_pc =
    StopAtLock  \<comment> \<open>\<open>sm.mu.Lock()\<close>\<close>
  | StopAtLookup  \<comment> \<open>\<open>gooseID, ok := sm.adkToGoose[adkSessionID]\<close>, write lock held\<close>
  | StopAtUnlockReturn  \<comment> \<open>\<open>sm.mu.Unlock(); return fmt.Errorf(...)\<close>\<close>
  | StopAtDeleteForward string  \<comment> \<open>\<open>delete(sm.adkToGoose, adkSessionID)\<close>\<close>
  | StopAtDeleteReverse string  \<comment> \<open>\<open>delete(sm.gooseToADK, gooseID)\<close>\<close>
  | StopAtUnlock string  \<comment> \<open>\<open>sm.mu.Unlock()\<close>\<close>
  | StopAtStopAgent string  \<comment> \<open>\<open>return sm.client.StopAgent(ctx, gooseID)\<close>\<close>
  | StopReturned "error option"

fun step_Stop :: "stdlib \<Rightarrow> Client \<Rightarrow> string \<Rightarrow> stop_pc \<Rightarrow> shared \<Rightarrow> (stop_pc \<times> shared) option" where
  "step_Stop lib c a StopAtLock sh =
     (if sh_writer sh \<or> sh_readers sh \<noteq> 0 then None
      else Some (StopAtLookup, sh\<lparr>sh_writer := True\<rparr>))"
| "step_Stop lib c a StopAtLookup sh =
     Some (case adkToGoose (sh_sm sh) a of
             None \<Rightarrow> StopAtUnlockReturn
           | Some gooseID \<Rightarrow> StopAtDeleteForward gooseID, sh)"
| "step_Stop lib c a StopAtUnlockReturn sh =
     Some (StopReturned (Some (Error (''no goose session for ADK session '' @ a) None)),
           sh\<lparr>sh_writer := False\<rparr>)"
| "step_Stop lib c a (StopAtDeleteForward gooseID) sh =
     Some (StopAtDeleteReverse gooseID,
           sh\<lparr>sh_sm := (sh_sm sh)\<lparr>adkToGoose := (adkToGoose (sh_sm sh))(a := None)\<rparr>\<rparr>)"
| "step_Stop lib c a (StopAtDeleteReverse gooseID) sh =
     Some (StopAtUnlock gooseID,
           sh\<lparr>sh_sm := (sh_sm sh)\<lparr>gooseToADK := (gooseToADK (sh_sm sh))(gooseID := None)\<rparr>\<rparr>)"
| "step_Stop lib c a (StopAtUnlock gooseID) sh =
     Some (StopAtStopAgent gooseID, sh\<lparr>sh_writer := False\<rparr>)"
| "step_Stop lib c a (StopAtStopAgent gooseID) sh =
     (case StopAgent lib c (sh_net sh) gooseID of
        (err, t') \<Rightarrow> Some (StopReturned err, sh\<lparr>sh_net := t'\<rparr>))"
| "step_Stop lib c a (StopReturned err) sh = None"

text \<open>The statements of \<open>GetGooseSessionID\<close>: \<open>sm.mu.RLock(); defer sm.mu.RUnlock()\<close>, the
  look-up, and the return with its deferred \<open>RUnlock\<close>.\<close>

datatype lookup_pc =
    GetIDAtRLock
  | GetIDAtLookup
  | GetIDAtRUnlockReturn "string option"
  | GetIDReturned "string option"

fun step_GetGooseSessionID :: "string \<Rightarrow> lookup_pc \<Rightarrow> shared \<Rightarrow> (lookup_pc \<times> shared) option" where
  "step_GetGooseSessionID a GetIDAtRLock sh =
     (if sh_writer sh then None
      else Some (GetIDAtLookup, sh\<lparr>sh_readers := Suc (sh_readers sh)\<rparr>))"
| "step_GetGooseSessionID a GetIDAtLookup sh =
     Some (GetIDAtRUnlockReturn (GetGooseSessionID (sh_sm sh) a), sh)"
| "step_GetGooseSessionID a (GetIDAtRUnlockReturn r) sh =
     Some (GetIDReturned r, sh\<lparr>sh_readers := sh_readers sh - 1\<rparr>)"
| "step_GetGooseSessionID a (GetIDReturned r) sh = None"

text \<open>The statements of \<open>ListMappedSessions\<close>: \<open>sm.mu.RLock(); defer sm.mu.RUnlock()\<close>, the
  loop that copies \<open>sm.adkToGoose\<close> into a new map (one step here: it reads the forward table
  and nothing else, with the read lock held from before its first to after its last
  iteration), and the return with its deferred \<open>RUnlock\<close>.\<close>

datatype list_pc =
    ListAtRLock
  | ListAtCopy
  | ListAtRUnlockReturn "string \<rightharpoonup> string"
  | ListReturned "string \<rightharpoonup> string"

fun step_ListMappedSessions :: "list_pc \<Rightarrow> shared \<Rightarrow> (list_pc \<times> shared) option" where
  "step_ListMappedSessions ListAtRLock sh =
     (if sh_writer sh then None
      else Some (ListAtCopy, sh\<lparr>sh_readers := Suc (sh_readers sh)\<rparr>))"
| "step_ListMappedSessions ListAtCopy sh =
     Some (ListAtRUnlockReturn (adkToGoose (sh_sm sh)), sh)"
| "step_ListMappedSessions (ListAtRUnlockReturn out) sh =
     Some (ListReturned out, sh\<lparr>sh_readers := sh_readers sh - 1\<rparr>)"
| "step_ListMappedSessions (ListReturned out) sh = None"

text \<open>A goroutine: the method it runs, the external id it was called with, and the
  statement it is at.\<close>

datatype goroutine =
    InGetOrCreate string pc
  | InStop string stop_pc
  | InGetGooseSessionID string lookup_pc
  | InListMappedSessions list_pc

fun step_goroutine :: "stdlib \<Rightarrow> Client \<Rightarrow> goroutine \<Rightarrow> shared \<Rightarrow> (goroutine \<times> shared) option" where
  "step_goroutine lib c (InGetOrCreate a p) sh =
     map_option (\<lambda>(p', sh'). (InGetOrCreate a p', sh')) (step_thread lib c a p sh)"
| "step_goroutine lib c (InStop a p) sh =
     map_option (\<lambda>(p', sh'). (InStop a p', sh')) (step_Stop lib c a p sh)"
| "step_goroutine lib c (InGetGooseSessionID a p) sh =
     map_option (\<lambda>(p', sh'). (InGetGooseSessionID a p', sh')) (step_GetGooseSessionID a p sh)"
| "step_goroutine lib c (InListMappedSessions p) sh =
     map_option (\<lambda>(p', sh'). (InListMappedSessions p', sh')) (step_ListMappedSessions p sh)"

text \<open>The run of a schedule, as for \<open>exec\<close>.\<close>

fun exec_pool ::
  "stdlib \<Rightarrow> Client \<Rightarrow> nat list \<Rightarrow> goroutine list \<times> shared \<Rightarrow> goroutine list \<times> shared" where
  "exec_pool lib c [] cfg = cfg"
| "exec_pool lib c (i # sched) (gs, sh) =
     (if i < length gs then
        (case step_goroutine lib c (gs ! i) sh of
           Some (g, sh') \<Rightarrow> exec_pool lib c sched (gs[i := g], sh')
         | None \<Rightarrow> exec_pool lib c sched (gs, sh))
      else exec_pool lib c sched (gs, sh))"




fun holds_read :: "goroutine \<Rightarrow> bool" where
  "holds_read (InGetOrCreate a p) = in_read p"
| "holds_read (InStop a p) = False"
| "holds_read (InGetGooseSessionID a p) = (case p of GetIDAtLookup \<Rightarrow> True | GetIDAtRUnlockReturn r \<Rightarrow> True | _ \<Rightarrow> False)"
| "holds_read (InListMappedSessions p) = (case p of ListAtCopy \<Rightarrow> True | ListAtRUnlockReturn out \<Rightarrow> True | _ \<Rightarrow> False)"



section \<open>Predicates of the specification and inputs for the examples\<close>

text \<open>The events a translation result hands to the caller.\<close>

definition outbound_events :: "panic + (ADKEvent option \<times> error option) \<Rightarrow> ADKEvent list" where
  "outbound_events r = (case r of Inr (Some evt, _) \<Rightarrow> [evt] | _ \<Rightarrow> [])"

text \<open>Every tool-request part of a message carries its tool call.\<close>

definition tool_calls_present :: "MessageContent list \<Rightarrow> bool" where
  "tool_calls_present cs =
     list_all (\<lambda>c. mc_Type c = ''toolRequest'' \<longrightarrow> mc_ToolCall c \<noteq> None) cs"

text \<open>The extraction of the response text as the specification words it: the first
  text-typed sub-part, else the JSON-encoded structured payload, else the empty string.\<close>

definition spec_extractToolResultText ::
  "(jsonmap \<Rightarrow> error + string) \<Rightarrow> ToolResult option \<Rightarrow> string" where
  "spec_extractToolResultText Marshal tr =
     (case tr of
        None \<Rightarrow> ''''
      | Some r \<Rightarrow>
          (case find (\<lambda>c. mc_Type c = ''text'') (tr_Content r) of
             Some c \<Rightarrow> mc_Text c
           | None \<Rightarrow>
               (case tr_StructuredContent r of
                  None \<Rightarrow> ''''
                | Some sc \<Rightarrow> (case Marshal sc of Inr b \<Rightarrow> b | Inl err \<Rightarrow> ''''))))"

text \<open>The function-response part the translator builds for a call id and a result text.\<close>

definition function_response_part :: "string \<Rightarrow> string \<Rightarrow> Part" where
  "function_response_part callID resultText =
     \<lparr>part_Text = '''', part_Thought = False, part_FunctionCall = None,
      part_FunctionResponse =
        Some \<lparr>fr_ID = callID, fr_Name = '''', fr_Response = Some [(''result'', JString resultText)]\<rparr>,
      part_InlineData = None\<rparr>"

text \<open>Go's zero value of \<open>SSEEvent\<close>, and events built from it as a struct literal would.\<close>

definition zero_SSEEvent :: SSEEvent where
  "zero_SSEEvent =
     \<lparr>sse_Type = '''', sse_Message = None, sse_Error = '''', sse_Reason = '''',
      sse_TokenState = None, sse_Model = '''', sse_Mode = ''''\<rparr>"

definition unknown_event :: SSEEvent where
  "unknown_event = zero_SSEEvent\<lparr>sse_Type := ''Notification''\<rparr>"

definition ping_event :: SSEEvent where
  "ping_event = zero_SSEEvent\<lparr>sse_Type := ''Ping''\<rparr>"

definition finish_event :: SSEEvent where
  "finish_event =
     zero_SSEEvent\<lparr>sse_Type := ''Finish'', sse_Reason := ''stop'',
       sse_TokenState := Some \<lparr>InputTokens = 10, OutputTokens = 5, TotalTokens = 15,
         AccumulatedInputTokens = 0, AccumulatedOutputTokens = 0, AccumulatedTotalTokens = 0\<rparr>\<rparr>"

definition message_event :: SSEEvent where
  "message_event =
     zero_SSEEvent\<lparr>sse_Type := ''Message'',
       sse_Message := Some \<lparr>gm_ID = '''', gm_Role = ''assistant'', gm_Created = 1234567890,
         gm_Content = [text_item ''Hello from Goose!''], gm_Metadata = None\<rparr>\<rparr>"

definition message_without_payload :: SSEEvent where
  "message_without_payload = zero_SSEEvent\<lparr>sse_Type := ''Message''\<rparr>"

definition empty_then_text :: ToolResult where
  "empty_then_text = ToolResult [text_item '''', text_item ''42''] False None"

definition tool_response :: "string \<Rightarrow> ToolResult \<Rightarrow> MessageContent" where
  "tool_response callID r =
     MessageContent ''toolResponse'' '''' '''' '''' callID None None (Some r) '''' None '''' '''' ''''"

definition no_Marshal :: "jsonmap \<Rightarrow> error + string" where
  "no_Marshal m = Inl (Error ''json: unsupported value'' None)"

definition epoch :: clock where
  "epoch = \<lparr>UnixNano = 0, Unix = 0\<rparr>"

text \<open>A line that the stream parser passes over: blank, a comment, not data-prefixed, or
  data-prefixed with a payload that does not decode.\<close>

definition ignored_line :: "(string \<Rightarrow> error + SSEEvent) \<Rightarrow> string \<Rightarrow> bool" where
  "ignored_line Unmarshal line =
     (line = '''' \<or> HasPrefix line '':'' \<or> \<not> HasPrefix line ''data: '' \<or>
      isl (Unmarshal (TrimPrefix line ''data: '')))"

text \<open>The event of a line: that of its payload when the line is data-prefixed and the
  payload decodes.\<close>

definition decoded_line :: "(string \<Rightarrow> error + SSEEvent) \<Rightarrow> string \<Rightarrow> SSEEvent option" where
  "decoded_line Unmarshal line =
     (if HasPrefix line ''data: '' then
        (case Unmarshal (TrimPrefix line ''data: '') of Inr event \<Rightarrow> Some event | Inl err \<Rightarrow> None)
      else None)"

definition never :: "nat \<Rightarrow> bool" where
  "never n = False"

text \<open>A decoder for the examples: it knows three payloads and rejects every other.\<close>

definition toy_Unmarshal :: "string \<Rightarrow> error + SSEEvent" where
  "toy_Unmarshal payload =
     (if payload = ''ping'' then Inr ping_event
      else if payload = ''message'' then Inr message_event
      else if payload = ''finish'' then Inr finish_event
      else Inl (Error ''invalid character'' None))"

text \<open>The two tables agree: an external id maps to a backend id exactly when that backend
  id maps back to it.\<close>

definition bijection :: "SessionManager \<Rightarrow> bool" where
  "bijection sm = (\<forall>a g. (adkToGoose sm a = Some g) = (gooseToADK sm g = Some a))"

text \<open>A sequence of calls on the session manager. The state carries, besides the manager
  and the transport, the backend ids that session-start calls have returned so far.\<close>

datatype op = OpGetOrCreate string | OpStop string

fun apply_op ::
  "stdlib \<Rightarrow> Client \<Rightarrow> op \<Rightarrow> SessionManager \<times> transport \<times> string list
     \<Rightarrow> SessionManager \<times> transport \<times> string list" where
  "apply_op lib c (OpGetOrCreate a) (sm, t, ids) =
     (case GetOrCreate lib c sm t a of
        (r, sm', t') \<Rightarrow>
          (sm', t', ids @ (case (adkToGoose sm a, r) of (None, Inr g) \<Rightarrow> [g] | _ \<Rightarrow> [])))"
| "apply_op lib c (OpStop a) (sm, t, ids) =
     (case Stop lib c sm t a of (r, sm', t') \<Rightarrow> (sm', t', ids))"

fun run_ops ::
  "stdlib \<Rightarrow> Client \<Rightarrow> op list \<Rightarrow> SessionManager \<times> transport \<times> string list
     \<Rightarrow> SessionManager \<times> transport \<times> string list" where
  "run_ops lib c [] st = st"
| "run_ops lib c (x # xs) st = run_ops lib c xs (apply_op lib c x st)"

text \<open>An encoder for the examples: an error object is written as its message.\<close>

fun toy_Encode :: "json \<Rightarrow> error + string" where
  "toy_Encode (JObject [(k, JString s)]) = Inr s"
| "toy_Encode v = Inr ''{}''"

text \<open>A library for the examples: the encoders write the one field that matters, the
  decoder of a session-start answer takes the whole body as the id.\<close>

definition toy_lib :: stdlib where
  "toy_lib =
     \<lparr>json_Marshal_map = no_Marshal,
      json_Marshal_Response = (\<lambda>m. Inr ''null''),
      json_Marshal_StartAgentRequest = (\<lambda>r. Inr (sar_WorkingDir r)),
      json_Marshal_StopAgentRequest = (\<lambda>r. Inr (stop_SessionID r)),
      json_Marshal_ReplyRequest = (\<lambda>r. Inr (SessionID r)),
      json_Marshal_ADKEvent =
        (\<lambda>e. Inr (if evt_TurnComplete e then ''{turnComplete}'' else ''{content}'')),
      json_Encode = toy_Encode,
      json_Decode_StartAgentResponse =
        (\<lambda>b. Inr \<lparr>resp_ID = b, resp_Name = ''test'', resp_WorkingDir = ''/tmp''\<rparr>),
      json_Decode_RunSSERequest = (\<lambda>b. Inr \<lparr>NewMessage = None\<rparr>),
      json_Unmarshal_SSEEvent = toy_Unmarshal,
      http_NewRequest =
        (\<lambda>m u b. Inr \<lparr>req_Method = m, req_URL = u, req_Header = [], req_Body = b\<rparr>),
      base64_EncodeToString = (\<lambda>d. d)\<rparr>"

definition toy_client :: Client where
  "toy_client = \<lparr>BaseURL = ''http://127.0.0.1:3000'', SecretKey = ''''\<rparr>"

text \<open>A backend that answers every request with status 200 and a body never used before,
  one that always answers with the same body, and one that cannot be reached.\<close>

definition fresh_backend :: transport where
  "fresh_backend =
     \<lparr>serve = (\<lambda>hist req. Inr \<lparr>resp_StatusCode = 200, resp_Body = replicate (Suc (length hist)) CHR ''g''\<rparr>),
      sent = []\<rparr>"

definition unreachable_backend :: transport where
  "unreachable_backend =
     \<lparr>serve = (\<lambda>hist req. Inl (Error ''dial tcp 127.0.0.1:3000: connect: connection refused'' None)),
      sent = []\<rparr>"

definition one_session :: SessionManager where
  "one_session =
     \<lparr>adkToGoose = [''s1'' \<mapsto> ''g1''], gooseToADK = [''g1'' \<mapsto> ''s1''], workingDir = ''/tmp''\<rparr>"

definition request_for :: "string \<Rightarrow> string \<Rightarrow> ServerRequest" where
  "request_for session b =
     \<lparr>path_app = ''myapp'', path_user = ''user1'', path_session = session, request_body = b,
      is_Flusher = True, ctx_Done = never, request_time = epoch, event_time = (\<lambda>n. epoch)\<rparr>"

definition five_calls :: "op list" where
  "five_calls =
     [OpGetOrCreate ''a'', OpGetOrCreate ''b'', OpGetOrCreate ''a'', OpStop ''a'', OpGetOrCreate ''a'']"

text \<open>A backend whose first answer is a failure and whose later answers are as those of
  \<open>fresh_backend\<close>.\<close>

definition flaky_backend :: transport where
  "flaky_backend =
     \<lparr>serve = (\<lambda>hist req.
        if hist = [] then Inl (Error ''dial tcp 127.0.0.1:3000: connect: connection refused'' None)
        else Inr \<lparr>resp_StatusCode = 200, resp_Body = replicate (length hist) CHR ''g''\<rparr>),
      sent = []\<rparr>"

text \<open>Two callers that both pass the first look-up before either takes the write lock;
  the first to take it runs to its return, then the second does.\<close>

definition both_miss_first_lookup :: "nat list" where
  "both_miss_first_lookup =
     [0, Suc 0, 0, Suc 0, 0, Suc 0, 0, Suc 0, 0, 0, 0, 0, 0,
      Suc 0, Suc 0, Suc 0, Suc 0, Suc 0, Suc 0]"

text \<open>A library whose request decoder finds a \<open>new_message\<close> with the body as its text.\<close>

definition turn_lib :: stdlib where
  "turn_lib =
     toy_lib\<lparr>json_Decode_RunSSERequest :=
         (\<lambda>b. Inr \<lparr>NewMessage =
            Some \<lparr>content_Parts = [Some (NewPartFromText b)], content_Role = ''user''\<rparr>\<rparr>)\<rparr>"

text \<open>A backend that answers every request with the same body, as the mock server of the
  repository's tests does.\<close>

definition repeating_backend :: transport where
  "repeating_backend =
     \<lparr>serve = (\<lambda>hist req. Inr \<lparr>resp_StatusCode = 200, resp_Body = ''goose-session-1''\<rparr>),
      sent = []\<rparr>"

text \<open>The body of a stream made of the given lines, each ended by a newline.\<close>

definition body_of :: "string list \<Rightarrow> string" where
  "body_of lines = concat (map (\<lambda>l. l @ [CHR 0x0A]) lines)"

text \<open>A backend that answers \<open>/reply\<close> with the given stream and every other request
  with a session id.\<close>

definition stream_backend :: "string \<Rightarrow> transport" where
  "stream_backend stream =
     \<lparr>serve = (\<lambda>hist req. Inr \<lparr>resp_StatusCode = 200,
        resp_Body = (if req_URL req = ''http://127.0.0.1:3000/reply'' then stream
                     else ''goose-session-1'')\<rparr>),
      sent = []\<rparr>"

text \<open>A stream of a message frame and a finish frame, each followed by an empty line.\<close>

definition streaming_backend :: transport where
  "streaming_backend = stream_backend (body_of [''data: message'', [], ''data: finish'', []])"

text \<open>A data frame whose payload does not decode and whose line is longer than the
  scanner's buffer.\<close>

definition long_frame :: string where
  "long_frame = ''data: '' @ replicate MaxScanTokenSize CHR ''x''"

text \<open>A reply request for the backend session \<open>g1\<close>, without a message.\<close>

definition reply_request :: ReplyRequest where
  "reply_request = \<lparr>UserMessage = None, SessionID = ''g1'', ConversationSoFar = []\<rparr>"

section \<open>The translator: one event in, at most one event out\<close>

lemma content_loop_ok:
  "tool_calls_present cs \<Longrightarrow> \<exists>ps. content_loop M cs parts = Inr ps"
  by (induction cs arbitrary: parts) (auto simp: tool_calls_present_def Let_def)

lemma content_loop_fault:
  "\<not> tool_calls_present cs \<Longrightarrow> content_loop M cs parts = Inl NilPointerDereference"
  by (induction cs arbitrary: parts)
     (auto simp: tool_calls_present_def Let_def split: option.splits)

lemma first_text_find:
  "first_text cs = map_option mc_Text (find (\<lambda>c. mc_Type c = ''text'' \<and> mc_Text c \<noteq> '''') cs)"
  by (induction cs) auto

text \<open>The translator panics on exactly the message-typed events that lack their payload or
  hold a tool-request part without tool call; on every other event it returns.\<close>

lemma translator_faults_iff:
  "(\<exists>p. GooseSSEEventToADKEvent M now sse invocationID = Inl p) =
   (sse_Type sse = ''Message'' \<and>
    (case sse_Message sse of None \<Rightarrow> True | Some m \<Rightarrow> \<not> tool_calls_present (gm_Content m)))"
proof (cases "sse_Message sse")
  case None
  then show ?thesis
    by (auto simp: GooseSSEEventToADKEvent_def GooseMessageToADKContent_def Let_def
          split: option.splits)
next
  case (Some m)
  show ?thesis
  proof (cases "tool_calls_present (gm_Content m)")
    case True
    then obtain ps where "content_loop M (gm_Content m) [] = Inr ps"
      using content_loop_ok by blast
    with Some True show ?thesis
      by (auto simp: GooseSSEEventToADKEvent_def GooseMessageToADKContent_def Let_def
            split: option.splits)
  next
    case False
    then have "content_loop M (gm_Content m) [] = Inl NilPointerDereference"
      by (rule content_loop_fault)
    with Some False show ?thesis
      by (auto simp: GooseSSEEventToADKEvent_def GooseMessageToADKContent_def Let_def
            split: option.splits)
  qed
qed

text \<open>
  C3, as stated, fails: an event whose type is none of the four the translator knows is
  not a ping, and its translation hands no event out.
\<close>

theorem C3_unrecognized_type_counterexample:
  "sse_Type unknown_event \<noteq> ''Ping'' \<and>
   GooseSSEEventToADKEvent no_Marshal epoch unknown_event ''inv_1'' = Inr (None, None)"
  by (simp add: GooseSSEEventToADKEvent_def unknown_event_def zero_SSEEvent_def)

text \<open>
  C3, amended: a finish event, an error event, and a message event whose payload is
  present and whose tool-request parts carry their tool call, each translate to exactly
  one outbound event; a ping and every event of an unrecognized type translate to none.
\<close>

theorem C3_one_event_per_recognized_type:
  "(sse_Type sse = ''Finish'' \<or> sse_Type sse = ''Error'' \<longrightarrow>
      length (outbound_events (GooseSSEEventToADKEvent M now sse invocationID)) = 1) \<and>
   (sse_Type sse = ''Message'' \<and> sse_Message sse = Some m \<and> tool_calls_present (gm_Content m) \<longrightarrow>
      length (outbound_events (GooseSSEEventToADKEvent M now sse invocationID)) = 1) \<and>
   (sse_Type sse \<notin> {''Message'', ''Finish'', ''Error''} \<longrightarrow>
      GooseSSEEventToADKEvent M now sse invocationID = Inr (None, None))"
proof (intro conjI impI)
  assume "sse_Type sse = ''Finish'' \<or> sse_Type sse = ''Error''"
  then show "length (outbound_events (GooseSSEEventToADKEvent M now sse invocationID)) = 1"
    by (auto simp: GooseSSEEventToADKEvent_def outbound_events_def Let_def split: option.splits)
next
  assume a: "sse_Type sse = ''Message'' \<and> sse_Message sse = Some m \<and> tool_calls_present (gm_Content m)"
  then obtain ps where "content_loop M (gm_Content m) [] = Inr ps"
    using content_loop_ok by blast
  with a show "length (outbound_events (GooseSSEEventToADKEvent M now sse invocationID)) = 1"
    by (simp add: GooseSSEEventToADKEvent_def GooseMessageToADKContent_def outbound_events_def Let_def)
next
  assume "sse_Type sse \<notin> {''Message'', ''Finish'', ''Error''}"
  then show "GooseSSEEventToADKEvent M now sse invocationID = Inr (None, None)"
    by (simp add: GooseSSEEventToADKEvent_def)
qed

theorem C3_one_event_per_recognized_type_witness:
  "length (outbound_events (GooseSSEEventToADKEvent no_Marshal epoch finish_event ''inv_1'')) = 1 \<and>
   length (outbound_events (GooseSSEEventToADKEvent no_Marshal epoch message_event ''inv_1'')) = 1 \<and>
   GooseSSEEventToADKEvent no_Marshal epoch ping_event ''inv_1'' = Inr (None, None)"
  using C3_one_event_per_recognized_type [of finish_event no_Marshal epoch "''inv_1''"]
        C3_one_event_per_recognized_type [of message_event no_Marshal epoch "''inv_1''"
          "the (sse_Message message_event)"]
        C3_one_event_per_recognized_type [of ping_event no_Marshal epoch "''inv_1''"]
  by (simp add: finish_event_def message_event_def ping_event_def zero_SSEEvent_def
        tool_calls_present_def text_item_def)

text \<open>
  C6: a finish event translates to one outbound event with \<open>turn_complete\<close> set that carries
  the invocation id; its usage is absent when the token state is, and otherwise holds the
  three counters unchanged under the names prompt, candidates and total. A ping and every
  event of an unrecognized type translate to no event.
\<close>

theorem C6_finish_ping_unrecognized:
  "(sse_Type sse = ''Finish'' \<longrightarrow>
      (\<exists>evt. GooseSSEEventToADKEvent M now sse invocationID = Inr (Some evt, None) \<and>
         evt_TurnComplete evt \<and> evt_InvocationID evt = invocationID \<and>
         evt_UsageMetadata evt =
           (case sse_TokenState sse of
              None \<Rightarrow> None
            | Some ts \<Rightarrow>
                Some \<lparr>PromptTokenCount = InputTokens ts, CandidatesTokenCount = OutputTokens ts,
                  TotalTokenCount = TotalTokens ts\<rparr>))) \<and>
   (sse_Type sse = ''Ping'' \<or> sse_Type sse \<notin> {''Message'', ''Finish'', ''Error'', ''Ping''} \<longrightarrow>
      GooseSSEEventToADKEvent M now sse invocationID = Inr (None, None))"
  by (auto simp: GooseSSEEventToADKEvent_def GooseTokenStateToUsageMetadata_def new_event_def
        Let_def split: option.splits)

theorem C6_finish_ping_unrecognized_witness:
  "(\<exists>evt. GooseSSEEventToADKEvent no_Marshal epoch finish_event ''inv_2'' = Inr (Some evt, None) \<and>
      evt_TurnComplete evt \<and> evt_InvocationID evt = ''inv_2'' \<and>
      evt_UsageMetadata evt =
        Some \<lparr>PromptTokenCount = 10, CandidatesTokenCount = 5, TotalTokenCount = 15\<rparr>) \<and>
   GooseSSEEventToADKEvent no_Marshal epoch ping_event ''inv_2'' = Inr (None, None) \<and>
   GooseSSEEventToADKEvent no_Marshal epoch unknown_event ''inv_2'' = Inr (None, None)"
  using C6_finish_ping_unrecognized [of finish_event no_Marshal epoch "''inv_2''"]
        C6_finish_ping_unrecognized [of ping_event no_Marshal epoch "''inv_2''"]
        C6_finish_ping_unrecognized [of unknown_event no_Marshal epoch "''inv_2''"]
  by (simp add: finish_event_def ping_event_def unknown_event_def zero_SSEEvent_def)

text \<open>
  C7, as stated, fails: in a tool result whose sub-parts are a text-typed one with empty
  text followed by a text-typed one with text \<open>42\<close>, the first text-typed sub-part has the
  empty text (what the specification's wording extracts), and the code extracts \<open>42\<close>.
\<close>

theorem C7_first_text_subpart_counterexample:
  "map mc_Type (tr_Content empty_then_text) = [''text'', ''text''] \<and>
   mc_Text (hd (tr_Content empty_then_text)) = '''' \<and>
   spec_extractToolResultText no_Marshal (Some empty_then_text) = '''' \<and>
   extractToolResultText no_Marshal (Some empty_then_text) = ''42''"
  by (simp add: empty_then_text_def text_item_def spec_extractToolResultText_def
        extractToolResultText_def)

text \<open>
  C7, amended: a tool-response part translates to a function-response part whose result
  text is that of the first text-typed sub-part of the tool result with non-empty text;
  without such a sub-part it is the JSON encoding of the structured payload, and the empty
  string when the payload is absent, cannot be encoded, or the tool result is absent.
\<close>

theorem C7_tool_response_text:
  "mc_Type mc = ''toolResponse'' \<longrightarrow>
     content_loop Marshal (mc # mcs) parts =
       content_loop Marshal mcs
         (parts @ [Some (function_response_part (mc_ID mc)
            (case mc_ToolResult mc of
               None \<Rightarrow> ''''
             | Some r \<Rightarrow>
                 (case find (\<lambda>c. mc_Type c = ''text'' \<and> mc_Text c \<noteq> '''') (tr_Content r) of
                    Some c \<Rightarrow> mc_Text c
                  | None \<Rightarrow>
                      (case tr_StructuredContent r of
                         None \<Rightarrow> ''''
                       | Some sc \<Rightarrow> (case Marshal sc of Inr b \<Rightarrow> b | Inl err \<Rightarrow> '''')))))])"
  by (auto simp: function_response_part_def extractToolResultText_def first_text_find Let_def
        split: option.splits sum.splits)

theorem C7_tool_response_text_witness:
  "content_loop no_Marshal [tool_response ''call1'' empty_then_text] [] =
     Inr [Some (function_response_part ''call1'' ''42'')]"
  using C7_tool_response_text [of "tool_response ''call1'' empty_then_text" no_Marshal "[]" "[]"]
  by (simp add: tool_response_def empty_then_text_def text_item_def)

text \<open>
  C8 fails on the code: a message-typed event without message payload makes the
  translator dereference \<open>nil\<close>, whatever the encoder, the clock and the invocation id.
\<close>

theorem C8_message_without_payload_panics:
  "GooseSSEEventToADKEvent M now message_without_payload invocationID = Inl NilPointerDereference"
  by (simp add: GooseSSEEventToADKEvent_def GooseMessageToADKContent_def
        message_without_payload_def zero_SSEEvent_def)

section \<open>The stream parser of the backend client\<close>

lemma data_line_not_noise:
  "HasPrefix line ''data: '' \<Longrightarrow> line \<noteq> '''' \<and> \<not> HasPrefix line '':''"
  by (cases line) (auto simp: HasPrefix_def)

lemma scan_loop_ignored_head:
  "ignored_line U l \<Longrightarrow> scan_loop U done (l # ys) ch = scan_loop U done ys ch"
  by (auto simp: ignored_line_def Let_def isl_def split: sum.splits)

lemma scan_loop_ignored:
  "scan_loop U done (xs @ l # ys) ch = scan_loop U done (xs @ ys) ch" if "ignored_line U l"
proof (induction xs arbitrary: ch)
  case Nil
  show ?case using that by (simp only: append_Nil scan_loop_ignored_head)
next
  case (Cons x xs)
  show ?case by (simp add: Cons.IH Let_def split: sum.splits)
qed

lemma scan_loop_no_cancel:
  "(\<forall>n. \<not> done n) \<Longrightarrow> scan_loop U done lines ch = ch @ List.map_filter (decoded_line U) lines"
proof (induction lines arbitrary: ch)
  case Nil
  then show ?case by (simp add: List.map_filter_simps)
next
  case (Cons l ls)
  show ?case
  proof (cases "HasPrefix l ''data: ''")
    case True
    then have "l \<noteq> '''' \<and> \<not> HasPrefix l '':''" by (rule data_line_not_noise)
    with True Cons show ?thesis
      by (auto simp: List.map_filter_simps decoded_line_def Let_def split: sum.splits)
  next
    case False
    with Cons show ?thesis
      by (auto simp: List.map_filter_simps decoded_line_def)
  qed
qed

text \<open>The scanner on a stream that begins with lines ended by a newline: it yields the
  lines up to the first that does not fit its buffer, and goes on with the rest of the
  stream only when all of them fit.\<close>

lemma Scan_line:
  "CHR 0x0A \<notin> set l \<Longrightarrow>
   Scan (l @ CHR 0x0A # rest) data =
     (if length (data @ l) < MaxScanTokenSize then dropCR (data @ l) # Scan rest [] else [])"
  by (induction l arbitrary: data) auto

lemma Scan_lines:
  "\<forall>l \<in> set lines. CHR 0x0A \<notin> set l \<Longrightarrow>
   Scan (body_of lines @ rest) [] =
     map dropCR (takeWhile (\<lambda>l. length l < MaxScanTokenSize) lines) @
     (if \<forall>l \<in> set lines. length l < MaxScanTokenSize then Scan rest [] else [])"
proof (induction lines)
  case Nil
  show ?case by (simp add: body_of_def)
next
  case (Cons l ls)
  then have "Scan (body_of ls @ rest) [] =
     map dropCR (takeWhile (\<lambda>l. length l < MaxScanTokenSize) ls) @
     (if \<forall>l \<in> set ls. length l < MaxScanTokenSize then Scan rest [] else [])"
    by simp
  moreover have "body_of (l # ls) @ rest = l @ CHR 0x0A # (body_of ls @ rest)"
    by (simp add: body_of_def)
  moreover have "CHR 0x0A \<notin> set l"
    using Cons.prems by simp
  ultimately show ?case
    by (simp add: Scan_line)
qed

lemma scanner_lines_body_of:
  "\<forall>l \<in> set lines. CHR 0x0A \<notin> set l \<Longrightarrow>
   scanner_lines (body_of lines) =
     map dropCR (takeWhile (\<lambda>l. length l < MaxScanTokenSize) lines)"
  using Scan_lines [of lines "[]"] by (simp add: scanner_lines_def)

lemma scanner_lines_drop_line:
  assumes "\<forall>x \<in> set xs. CHR 0x0A \<notin> set x" and "CHR 0x0A \<notin> set l"
    and "length l < MaxScanTokenSize" and "ignored_line U (dropCR l)"
  shows "scan_loop U done (scanner_lines (body_of xs @ l @ CHR 0x0A # tail)) ch =
         scan_loop U done (scanner_lines (body_of xs @ tail)) ch"
proof -
  have "Scan (l @ CHR 0x0A # tail) [] = dropCR l # Scan tail []"
    using assms(2,3) by (simp add: Scan_line)
  then show ?thesis
    using assms(1,4)
    by (simp add: scanner_lines_def Scan_lines scan_loop_ignored)
qed

lemma long_frame_malformed:
  "HasPrefix long_frame ''data: '' \<and> isl (toy_Unmarshal (TrimPrefix long_frame ''data: ''))"
proof -
  have prefix: "HasPrefix long_frame ''data: ''"
    by (simp add: HasPrefix_def long_frame_def)
  have "length (TrimPrefix long_frame ''data: '') = MaxScanTokenSize"
    using prefix by (simp add: TrimPrefix_def long_frame_def)
  then have "length (TrimPrefix long_frame ''data: '') \<notin> {4, 6, 7}"
    by (simp add: MaxScanTokenSize_def)
  then have "TrimPrefix long_frame ''data: '' \<notin> {''ping'', ''finish'', ''message''}"
    by auto
  then show ?thesis
    using prefix by (simp add: toy_Unmarshal_def)
qed

lemma long_frame_line:
  "CHR 0x0A \<notin> set long_frame \<and> \<not> length long_frame < MaxScanTokenSize"
  by (simp add: long_frame_def)

lemma Reply_stream:
  "fst (Reply toy_lib toy_client (stream_backend stream) done req) =
     Inr (scan_loop toy_Unmarshal done (scanner_lines stream) [])"
  by (simp add: Reply_def Do_def toy_lib_def toy_client_def stream_backend_def
        with_secret_def with_content_type_def Header_Set_def Let_def)

text \<open>
  A data frame that does not decode and is longer than the scanner's buffer, followed by a
  finish frame: the channel of \<open>Reply\<close> delivers nothing, where the finish frame alone
  delivers its event. The malformed frame ends the stream.
\<close>

theorem C9_long_malformed_frame_ends_stream_counterexample:
  "HasPrefix long_frame ''data: '' \<and> isl (toy_Unmarshal (TrimPrefix long_frame ''data: '')) \<and>
   fst (Reply toy_lib toy_client (stream_backend (body_of [long_frame, ''data: finish''])) never
          reply_request) = Inr [] \<and>
   fst (Reply toy_lib toy_client (stream_backend (body_of [''data: finish''])) never reply_request) =
     Inr [finish_event]"
proof -
  have "scanner_lines (body_of [long_frame, ''data: finish'']) = []"
    using long_frame_line scanner_lines_body_of [of "[long_frame, ''data: finish'']"]
    by simp
  moreover have "scanner_lines (body_of [''data: finish'']) = [''data: finish'']"
    using scanner_lines_body_of [of "[''data: finish'']"]
    by (simp add: MaxScanTokenSize_def dropCR_def)
  ultimately have
    "fst (Reply toy_lib toy_client (stream_backend (body_of [long_frame, ''data: finish''])) never
            reply_request) = Inr [] \<and>
     fst (Reply toy_lib toy_client (stream_backend (body_of [''data: finish''])) never reply_request) =
       Inr [finish_event]"
    by (simp add: Reply_stream toy_Unmarshal_def HasPrefix_def TrimPrefix_def never_def)
  with long_frame_malformed show ?thesis
    by (simp only:)
qed

text \<open>
  C9 (amended): take the lines of the stream body, each ended by a newline. A line shorter
  than the scanner's buffer of 64 KiB whose text is blank, a comment, not data-prefixed, or
  data-prefixed with a payload that fails to decode leaves no trace: wherever it stands in
  the body, the channel delivers what it would deliver without that line, under any
  cancellation and whatever follows it. While the context is not cancelled and every line
  is shorter than the buffer, the channel delivers, in order, exactly the events of the
  data-prefixed lines whose payload decodes.
\<close>

theorem C9_malformed_frame_within_buffer_dropped:
  "((\<forall>x \<in> set xs. CHR 0x0A \<notin> set x) \<and> CHR 0x0A \<notin> set l \<and> length l < MaxScanTokenSize \<and>
    ignored_line U (dropCR l) \<longrightarrow>
      scan_loop U done (scanner_lines (body_of xs @ l @ CHR 0x0A # tail)) ch =
      scan_loop U done (scanner_lines (body_of xs @ tail)) ch) \<and>
   ((\<forall>x \<in> set lines. CHR 0x0A \<notin> set x \<and> length x < MaxScanTokenSize) \<and> (\<forall>n. \<not> done n) \<longrightarrow>
      scan_loop U done (scanner_lines (body_of lines)) [] =
        List.map_filter (decoded_line U) (map dropCR lines))"
proof -
  have "scan_loop U done (scanner_lines (body_of lines)) [] =
        List.map_filter (decoded_line U) (map dropCR lines)"
    if "\<forall>x \<in> set lines. CHR 0x0A \<notin> set x \<and> length x < MaxScanTokenSize" and "\<forall>n. \<not> done n"
  proof -
    have fit: "takeWhile (\<lambda>l. length l < MaxScanTokenSize) lines = lines"
      using that(1) by (simp add: takeWhile_eq_all_conv)
    have "scanner_lines (body_of lines) =
          map dropCR (takeWhile (\<lambda>l. length l < MaxScanTokenSize) lines)"
      using that(1) by (simp add: scanner_lines_body_of)
    then have "scanner_lines (body_of lines) = map dropCR lines"
      by (simp only: fit)
    then show ?thesis
      using scan_loop_no_cancel [OF that(2), of U "map dropCR lines" "[]"] by simp
  qed
  then show ?thesis
    using scanner_lines_drop_line [of xs l U "done" tail ch] by blast
qed

theorem C9_malformed_frame_within_buffer_dropped_witness:
  "ignored_line toy_Unmarshal (dropCR (''data: {bad'' @ [CHR 0x0D])) \<and>
   scan_loop toy_Unmarshal never
     (scanner_lines (body_of ['': keep-alive'', ''data: ping''] @
        (''data: {bad'' @ [CHR 0x0D]) @ CHR 0x0A # ''data: finish'')) [] =
     scan_loop toy_Unmarshal never
       (scanner_lines (body_of ['': keep-alive'', ''data: ping''] @ ''data: finish'')) [] \<and>
   scan_loop toy_Unmarshal never
     (scanner_lines
        (body_of ['': keep-alive'', ''data: ping'', [], ''data: {bad'', ''event: x'',
                  ''data: finish''])) [] =
     [ping_event, finish_event]"
proof -
  have bad: "ignored_line toy_Unmarshal (dropCR (''data: {bad'' @ [CHR 0x0D]))"
    by (simp add: ignored_line_def dropCR_def toy_Unmarshal_def HasPrefix_def TrimPrefix_def)
  have quiet: "\<forall>n. \<not> never n"
    by (simp add: never_def)
  show ?thesis
    using bad quiet
      C9_malformed_frame_within_buffer_dropped [of "['': keep-alive'', ''data: ping'']"
        "''data: {bad'' @ [CHR 0x0D]" toy_Unmarshal never "''data: finish''" "[]"
        "['': keep-alive'', ''data: ping'', [], ''data: {bad'', ''event: x'', ''data: finish'']"]
    by (simp add: MaxScanTokenSize_def List.map_filter_simps decoded_line_def dropCR_def
          toy_Unmarshal_def HasPrefix_def TrimPrefix_def)
qed

section \<open>The session manager\<close>

lemma GetOrCreate_present:
  "adkToGoose sm a = Some g \<Longrightarrow> GetOrCreate lib c sm t a = (Inr g, sm, t)"
  by (simp add: GetOrCreate_def)

lemma GetOrCreate_failure:
  "adkToGoose sm a = None \<Longrightarrow>
   StartAgent lib c t \<lparr>sar_WorkingDir = workingDir sm, sar_RecipeID = ''''\<rparr> = (Inl err, t') \<Longrightarrow>
   GetOrCreate lib c sm t a =
     (Inl (Error (''start goose agent for ADK session '' @ a @ '': '' @ error_message err) (Some err)),
      sm, t')"
  by (simp add: GetOrCreate_def Errorf_w_def)

lemma GetOrCreate_created:
  "adkToGoose sm a = None \<Longrightarrow>
   StartAgent lib c t \<lparr>sar_WorkingDir = workingDir sm, sar_RecipeID = ''''\<rparr> = (Inr resp, t') \<Longrightarrow>
   GetOrCreate lib c sm t a =
     (Inr (resp_ID resp),
      sm\<lparr>adkToGoose := (adkToGoose sm)(a \<mapsto> resp_ID resp),
         gooseToADK := (gooseToADK sm)(resp_ID resp \<mapsto> a)\<rparr>, t')"
  by (simp add: GetOrCreate_def)

lemma bijection_install:
  assumes "bijection sm" "adkToGoose sm a = None" "gooseToADK sm g = None"
  shows "bijection (sm\<lparr>adkToGoose := (adkToGoose sm)(a \<mapsto> g), gooseToADK := (gooseToADK sm)(g \<mapsto> a)\<rparr>)"
proof -
  have agree: "(adkToGoose sm x = Some y) = (gooseToADK sm y = Some x)" for x y
    using assms(1) by (simp add: bijection_def)
  show ?thesis
    unfolding bijection_def
  proof (intro allI)
    fix x y
    show "(adkToGoose (sm\<lparr>adkToGoose := (adkToGoose sm)(a \<mapsto> g), gooseToADK := (gooseToADK sm)(g \<mapsto> a)\<rparr>) x = Some y) =
          (gooseToADK (sm\<lparr>adkToGoose := (adkToGoose sm)(a \<mapsto> g), gooseToADK := (gooseToADK sm)(g \<mapsto> a)\<rparr>) y = Some x)"
      using agree [of x y] agree [of a y] agree [of x g] assms(2,3) by auto
  qed
qed

lemma bijection_remove:
  assumes "bijection sm" "adkToGoose sm a = Some g"
  shows "bijection (sm\<lparr>adkToGoose := (adkToGoose sm)(a := None), gooseToADK := (gooseToADK sm)(g := None)\<rparr>)"
proof -
  have agree: "(adkToGoose sm x = Some y) = (gooseToADK sm y = Some x)" for x y
    using assms(1) by (simp add: bijection_def)
  show ?thesis
    unfolding bijection_def
  proof (intro allI)
    fix x y
    show "(adkToGoose (sm\<lparr>adkToGoose := (adkToGoose sm)(a := None), gooseToADK := (gooseToADK sm)(g := None)\<rparr>) x = Some y) =
          (gooseToADK (sm\<lparr>adkToGoose := (adkToGoose sm)(a := None), gooseToADK := (gooseToADK sm)(g := None)\<rparr>) y = Some x)"
      using agree [of x y] agree [of a y] agree [of x g] agree [of a g] assms(2) by auto
  qed
qed

lemma apply_op_ids: "\<exists>xs. snd (snd (apply_op lib c x st)) = snd (snd st) @ xs"
  by (cases st; cases x) (auto split: prod.splits)

lemma run_ops_ids: "\<exists>xs. snd (snd (run_ops lib c ops st)) = snd (snd st) @ xs"
proof (induction ops arbitrary: st)
  case Nil
  then show ?case by simp
next
  case (Cons x xs)
  obtain ys where ys: "snd (snd (apply_op lib c x st)) = snd (snd st) @ ys"
    using apply_op_ids by blast
  obtain zs where "snd (snd (run_ops lib c xs (apply_op lib c x st))) = snd (snd (apply_op lib c x st)) @ zs"
    using Cons.IH by blast
  with ys show ?case by simp
qed

lemma apply_op_tables:
  assumes step: "apply_op lib c x (sm, t, ids) = (sm', t', ids')"
    and bij: "bijection sm"
    and known: "dom (gooseToADK sm) \<subseteq> set ids"
    and fresh: "distinct ids'"
  shows "bijection sm' \<and> dom (gooseToADK sm') \<subseteq> set ids'"
proof (cases x)
  case (OpGetOrCreate a)
  show ?thesis
  proof (cases "adkToGoose sm a")
    case (Some g)
    with OpGetOrCreate step bij known show ?thesis
      by (auto simp: GetOrCreate_present)
  next
    case None
    obtain r t1 where start:
      "StartAgent lib c t \<lparr>sar_WorkingDir = workingDir sm, sar_RecipeID = ''''\<rparr> = (r, t1)"
      by (cases "StartAgent lib c t \<lparr>sar_WorkingDir = workingDir sm, sar_RecipeID = ''''\<rparr>") auto
    show ?thesis
    proof (cases r)
      case (Inl err)
      with None start OpGetOrCreate step bij known show ?thesis
        by (auto simp: GetOrCreate_failure)
    next
      case (Inr resp)
      with None start OpGetOrCreate step have
        sm': "sm' = sm\<lparr>adkToGoose := (adkToGoose sm)(a \<mapsto> resp_ID resp),
                        gooseToADK := (gooseToADK sm)(resp_ID resp \<mapsto> a)\<rparr>"
        and ids': "ids' = ids @ [resp_ID resp]"
        by (auto simp: GetOrCreate_created)
      from ids' fresh have "resp_ID resp \<notin> set ids" by simp
      with known have "gooseToADK sm (resp_ID resp) = None" by blast
      with bij None have "bijection sm'"
        unfolding sm' by (rule bijection_install)
      moreover have "dom (gooseToADK sm') \<subseteq> set ids'"
        using known by (auto simp: sm' ids')
      ultimately show ?thesis by simp
    qed
  qed
next
  case (OpStop a)
  show ?thesis
  proof (cases "adkToGoose sm a")
    case None
    with OpStop step bij known show ?thesis
      by (auto simp: Stop_def)
  next
    case (Some g)
    with OpStop step have
      sm': "sm' = sm\<lparr>adkToGoose := (adkToGoose sm)(a := None), gooseToADK := (gooseToADK sm)(g := None)\<rparr>"
      and ids': "ids' = ids"
      by (auto simp: Stop_def Let_def split: prod.splits)
    from bij Some have "bijection sm'"
      unfolding sm' by (rule bijection_remove)
    moreover have "dom (gooseToADK sm') \<subseteq> set ids'"
      using known by (auto simp: sm' ids')
    ultimately show ?thesis by simp
  qed
qed

lemma run_ops_tables:
  assumes "run_ops lib c ops (sm, t, ids) = (sm', t', ids')"
    and "bijection sm"
    and "dom (gooseToADK sm) \<subseteq> set ids"
    and "distinct ids'"
  shows "bijection sm' \<and> dom (gooseToADK sm') \<subseteq> set ids'"
  using assms
proof (induction ops arbitrary: sm t ids)
  case Nil
  then show ?case by simp
next
  case (Cons x xs)
  obtain sm1 t1 ids1 where step: "apply_op lib c x (sm, t, ids) = (sm1, t1, ids1)"
    by (cases "apply_op lib c x (sm, t, ids)") auto
  with Cons.prems(1) have rest: "run_ops lib c xs (sm1, t1, ids1) = (sm', t', ids')"
    by simp
  obtain zs where "ids' = ids1 @ zs"
    using run_ops_ids [of lib c xs "(sm1, t1, ids1)"] rest by auto
  with Cons.prems(4) have "distinct ids1" by simp
  with step Cons.prems(2,3) have "bijection sm1 \<and> dom (gooseToADK sm1) \<subseteq> set ids1"
    by (rule apply_op_tables)
  with rest Cons.prems(4) show ?case
    using Cons.IH by blast
qed




lemma rw_Status_writeError: "rw_Status (writeError lib new_ResponseWriter status msg) = Some status"
  by (simp add: writeError_def writeJSON_def WriteHeader_def Write_def new_ResponseWriter_def
        Let_def split: sum.splits)

text \<open>The backend ids must be fresh: against a backend that returns the same id twice, two
  external ids end up mapped to one backend id, which maps back to the second of them
  only.\<close>

lemma reused_backend_id_breaks_bijection:
  "\<not> bijection (fst (run_ops toy_lib toy_client [OpGetOrCreate ''a'', OpGetOrCreate ''b'']
      (NewSessionManager ''/tmp'', repeating_backend, [])))"
proof
  let ?sm = "fst (run_ops toy_lib toy_client [OpGetOrCreate ''a'', OpGetOrCreate ''b'']
      (NewSessionManager ''/tmp'', repeating_backend, []))"
  assume "bijection ?sm"
  then have "(adkToGoose ?sm ''a'' = Some ''goose-session-1'') =
             (gooseToADK ?sm ''goose-session-1'' = Some ''a'')"
    unfolding bijection_def by blast
  moreover have "adkToGoose ?sm ''a'' = Some ''goose-session-1''"
    and "gooseToADK ?sm ''goose-session-1'' = Some ''b''"
    by (simp_all add: NewSessionManager_def repeating_backend_def toy_lib_def toy_client_def
          GetOrCreate_def StartAgent_def doJSON_def Do_def with_secret_def
          with_content_type_def Header_Set_def Let_def)
  ultimately show False by simp
qed

text \<open>
  C1: start from a new session manager and run any sequence of \<open>GetOrCreate\<close> and \<open>Stop\<close>
  calls against any backend. If the backend ids that the session-start calls of the run
  returned are pairwise distinct, the two tables agree at the end: an external id maps to
  a backend id exactly when that backend id maps back to it.
\<close>

theorem C1_tables_stay_bijective:
  "distinct (snd (snd (run_ops lib c ops (NewSessionManager wd, t, [])))) \<Longrightarrow>
   bijection (fst (run_ops lib c ops (NewSessionManager wd, t, [])))"
proof -
  assume fresh: "distinct (snd (snd (run_ops lib c ops (NewSessionManager wd, t, []))))"
  obtain sm' t' ids' where run: "run_ops lib c ops (NewSessionManager wd, t, []) = (sm', t', ids')"
    by (cases "run_ops lib c ops (NewSessionManager wd, t, [])") auto
  have "bijection (NewSessionManager wd)"
    by (simp add: bijection_def NewSessionManager_def)
  moreover have "dom (gooseToADK (NewSessionManager wd)) \<subseteq> set []"
    by (simp add: NewSessionManager_def)
  ultimately have "bijection sm' \<and> dom (gooseToADK sm') \<subseteq> set ids'"
    using run fresh run_ops_tables by (metis snd_conv)
  with run show ?thesis by simp
qed

theorem C1_tables_stay_bijective_witness:
  "snd (snd (run_ops toy_lib toy_client five_calls (NewSessionManager ''/tmp'', fresh_backend, []))) =
     [''g'', ''gg'', ''gggg''] \<and>
   bijection (fst (run_ops toy_lib toy_client five_calls (NewSessionManager ''/tmp'', fresh_backend, [])))"
proof -
  have ids:
    "snd (snd (run_ops toy_lib toy_client five_calls (NewSessionManager ''/tmp'', fresh_backend, []))) =
       [''g'', ''gg'', ''gggg'']"
    by (simp add: five_calls_def NewSessionManager_def fresh_backend_def toy_lib_def toy_client_def
          GetOrCreate_def Stop_def StartAgent_def StopAgent_def doJSON_def Do_def with_secret_def
          with_content_type_def Header_Set_def Let_def)
  then show ?thesis
    using C1_tables_stay_bijective [of toy_lib toy_client five_calls "''/tmp''" fresh_backend]
    by simp
qed

lemma GetOrCreate_error_keeps_tables:
  "fst (GetOrCreate lib c sm t a) = Inl e \<Longrightarrow> fst (snd (GetOrCreate lib c sm t a)) = sm"
  by (auto simp: GetOrCreate_def split: option.splits prod.splits sum.splits)

text \<open>
  C4: when the external id is mapped, \<open>GetOrCreate\<close> returns the mapped backend id and
  leaves the session manager and the transport as they were (no request is sent). When it
  is not mapped and the session-start call fails, \<open>GetOrCreate\<close> returns an error that
  wraps the failure, and the session manager is as it was. Whenever \<open>GetOrCreate\<close> returns
  an error, the session manager is as it was.
\<close>

theorem C4_existing_id_or_wrapped_error:
  "(adkToGoose sm a = Some g \<longrightarrow> GetOrCreate lib c sm t a = (Inr g, sm, t)) \<and>
   (adkToGoose sm a = None \<and>
    StartAgent lib c t \<lparr>sar_WorkingDir = workingDir sm, sar_RecipeID = ''''\<rparr> = (Inl err, t') \<longrightarrow>
      GetOrCreate lib c sm t a =
        (Inl (Error (''start goose agent for ADK session '' @ a @ '': '' @ error_message err) (Some err)),
         sm, t')) \<and>
   (fst (GetOrCreate lib c sm t a) = Inl e \<longrightarrow> fst (snd (GetOrCreate lib c sm t a)) = sm)"
  by (simp add: GetOrCreate_present GetOrCreate_failure GetOrCreate_error_keeps_tables)

theorem C4_existing_id_or_wrapped_error_witness:
  "GetOrCreate toy_lib toy_client one_session unreachable_backend ''s1'' =
     (Inr ''g1'', one_session, unreachable_backend) \<and>
   fst (GetOrCreate toy_lib toy_client one_session unreachable_backend ''s2'') =
     Inl (Error ''start goose agent for ADK session s2: execute request: dial tcp 127.0.0.1:3000: connect: connection refused''
       (Some (Error ''execute request: dial tcp 127.0.0.1:3000: connect: connection refused''
         (Some (Error ''dial tcp 127.0.0.1:3000: connect: connection refused'' None))))) \<and>
   fst (snd (GetOrCreate toy_lib toy_client one_session unreachable_backend ''s2'')) = one_session"
proof -
  have start:
    "StartAgent toy_lib toy_client unreachable_backend
       \<lparr>sar_WorkingDir = workingDir one_session, sar_RecipeID = ''''\<rparr> =
     (Inl (Error ''execute request: dial tcp 127.0.0.1:3000: connect: connection refused''
        (Some (Error ''dial tcp 127.0.0.1:3000: connect: connection refused'' None))),
      snd (StartAgent toy_lib toy_client unreachable_backend
        \<lparr>sar_WorkingDir = workingDir one_session, sar_RecipeID = ''''\<rparr>))"
    by (simp add: StartAgent_def doJSON_def Do_def unreachable_backend_def toy_lib_def
          toy_client_def Errorf_w_def Let_def)
  have mapped: "adkToGoose one_session ''s1'' = Some ''g1''"
    and unmapped: "adkToGoose one_session ''s2'' = None"
    by (simp_all add: one_session_def)
  show ?thesis
    using mapped unmapped start
      C4_existing_id_or_wrapped_error [of one_session "''s1''" "''g1''" toy_lib toy_client
        unreachable_backend]
      C4_existing_id_or_wrapped_error [of one_session "''s2''" "''g1''" toy_lib toy_client
        unreachable_backend
        "Error ''execute request: dial tcp 127.0.0.1:3000: connect: connection refused''
           (Some (Error ''dial tcp 127.0.0.1:3000: connect: connection refused'' None))"
        "snd (StartAgent toy_lib toy_client unreachable_backend
           \<lparr>sar_WorkingDir = workingDir one_session, sar_RecipeID = ''''\<rparr>)"]
    by simp
qed

section \<open>The handler of a turn\<close>

text \<open>A turn with \<open>new_message\<close> on a new session: the handler starts a backend session,
  posts the reply request, and writes one frame for the message event and one for the
  finish event of the stream.\<close>

lemma turn_reaches_backend:
  "fst (handleRunSSE turn_lib toy_client (NewSessionManager ''/tmp'') streaming_backend
     (request_for ''s1'' ''hello'')) = None \<and>
   rw_Status (fst (snd (handleRunSSE turn_lib toy_client (NewSessionManager ''/tmp'') streaming_backend
     (request_for ''s1'' ''hello'')))) = Some 200 \<and>
   rw_Body (fst (snd (handleRunSSE turn_lib toy_client (NewSessionManager ''/tmp'') streaming_backend
     (request_for ''s1'' ''hello'')))) =
     [''data: {content}'' @ [CHR 0x0A, CHR 0x0A], ''data: {turnComplete}'' @ [CHR 0x0A, CHR 0x0A]] \<and>
   map req_URL (sent (snd (snd (snd (handleRunSSE turn_lib toy_client (NewSessionManager ''/tmp'')
     streaming_backend (request_for ''s1'' ''hello'')))))) =
     [''http://127.0.0.1:3000/agent/start'', ''http://127.0.0.1:3000/reply'']"
  by (simp add: handleRunSSE_def GetOrCreate_def StartAgent_def Reply_def doJSON_def Do_def
        turn_lib_def toy_lib_def toy_client_def streaming_backend_def stream_backend_def body_of_def
        scanner_lines_def dropCR_def MaxScanTokenSize_def NewSessionManager_def
        request_for_def never_def epoch_def toy_Unmarshal_def message_event_def finish_event_def
        zero_SSEEvent_def text_item_def ADKRunSSERequestToReplyRequest_def
        ADKContentToGooseMessage_def part_items_def NewPartFromText_def
        GooseSSEEventToADKEvent_def GooseMessageToADKContent_def new_event_def
        GooseTokenStateToUsageMetadata_def HasPrefix_def TrimPrefix_def
        with_secret_def with_content_type_def Header_Set_def new_ResponseWriter_def
        Write_def WriteHeader_def Let_def)

text \<open>
  C10: when the body of a \<open>run_sse\<close> request does not decode, or decodes to a request
  without \<open>new_message\<close>, the handler answers with status 400 and returns with the session
  manager and the transport as they were: no session was looked up or created and no
  request was sent to the backend.
\<close>

theorem C10_missing_new_message_rejected:
  "(\<exists>err. json_Decode_RunSSERequest lib (request_body r) = Inl err) \<or>
   (\<exists>req. json_Decode_RunSSERequest lib (request_body r) = Inr req \<and> NewMessage req = None) \<longrightarrow>
   (\<exists>w. handleRunSSE lib c sm t r = (None, w, sm, t) \<and> rw_Status w = Some 400)"
  by (auto simp: handleRunSSE_def Let_def rw_Status_writeError)

theorem C10_missing_new_message_rejected_witness:
  "json_Decode_RunSSERequest toy_lib (request_body (request_for ''s2'' ''{}'')) =
     Inr \<lparr>NewMessage = None\<rparr> \<and>
   (\<exists>w. handleRunSSE toy_lib toy_client one_session fresh_backend (request_for ''s2'' ''{}'') =
          (None, w, one_session, fresh_backend) \<and> rw_Status w = Some 400)"
proof -
  have decoded:
    "json_Decode_RunSSERequest toy_lib (request_body (request_for ''s2'' ''{}'')) =
       Inr \<lparr>NewMessage = None\<rparr>"
    by (simp add: toy_lib_def)
  then show ?thesis
    using C10_missing_new_message_rejected [of toy_lib "request_for ''s2'' ''{}''" toy_client
        one_session fresh_backend]
    by simp
qed

section \<open>Concurrent calls of GetOrCreate: one creation\<close>

text \<open>How the parts of the invariant read at each statement and under each update of
  the shared state.\<close>

lemma created_simps [simp]:
  "created (sh\<lparr>sh_readers := n\<rparr>) = created sh"
  "created (sh\<lparr>sh_writer := b\<rparr>) = created sh"
  "created (sh\<lparr>sh_sm := sm\<rparr>) = created sh"
  "created (sh\<lparr>sh_net := t, sh_calls := sh_calls sh @ [Inl e]\<rparr>) = created sh"
  "created (sh\<lparr>sh_net := t, sh_calls := sh_calls sh @ [Inr resp]\<rparr>) = created sh @ [resp]"
  by (simp_all add: created_def)

lemma failed_simps [simp]:
  "some_call_failed (sh\<lparr>sh_readers := n\<rparr>) = some_call_failed sh"
  "some_call_failed (sh\<lparr>sh_writer := b\<rparr>) = some_call_failed sh"
  "some_call_failed (sh\<lparr>sh_sm := sm\<rparr>) = some_call_failed sh"
  "some_call_failed (sh\<lparr>sh_net := t, sh_calls := sh_calls sh @ [Inl e]\<rparr>)"
  "some_call_failed (sh\<lparr>sh_net := t, sh_calls := sh_calls sh @ [Inr resp]\<rparr>) = some_call_failed sh"
  by (auto simp: some_call_failed_def)

lemma unset_frame [simp]:
  "unset_means_none_created a (sh\<lparr>sh_readers := n\<rparr>) = unset_means_none_created a sh"
  "unset_means_none_created a (sh\<lparr>sh_writer := b\<rparr>) = unset_means_none_created a sh"
  "unset_means_none_created a (sh\<lparr>sh_sm := (sh_sm sh)\<lparr>gooseToADK := m\<rparr>\<rparr>) = unset_means_none_created a sh"
  by (simp_all add: unset_means_none_created_def)

lemma result_ok_simps [simp]:
  "result_ok a sh (Inr g) = (adkToGoose (sh_sm sh) a = Some g)"
  "result_ok a sh (Inl e) = some_call_failed sh"
  by (simp_all add: result_ok_def)

lemma result_ok_frame [simp]:
  "result_ok a (sh\<lparr>sh_readers := n\<rparr>) r = result_ok a sh r"
  "result_ok a (sh\<lparr>sh_writer := b\<rparr>) r = result_ok a sh r"
  "result_ok a (sh\<lparr>sh_sm := (sh_sm sh)\<lparr>gooseToADK := m\<rparr>\<rparr>) r = result_ok a sh r"
  by (simp_all add: result_ok_def split: sum.splits)

lemma pc_ok_simps [simp]:
  "pc_ok a sh AtRLock"
  "pc_ok a sh AtLookup"
  "pc_ok a sh AtRUnlock"
  "pc_ok a sh AtLock"
  "pc_ok a sh (AtRUnlockReturn g) = (adkToGoose (sh_sm sh) a = Some g)"
  "pc_ok a sh AtRecheck = unset_means_none_created a sh"
  "pc_ok a sh AtStartAgent = (adkToGoose (sh_sm sh) a = None \<and> created sh = [])"
  "pc_ok a sh (AtStoreForward resp) = (adkToGoose (sh_sm sh) a = None \<and> created sh = [resp])"
  "pc_ok a sh (AtStoreReverse resp) = (adkToGoose (sh_sm sh) a = Some (resp_ID resp))"
  "pc_ok a sh (AtUnlockReturn r) = (unset_means_none_created a sh \<and> result_ok a sh r)"
  "pc_ok a sh (Returned r) = result_ok a sh r"
  by (simp_all add: pc_ok_def)

lemma in_write_simps [simp]:
  "\<not> in_write AtRLock"
  "\<not> in_write AtLookup"
  "\<not> in_write AtRUnlock"
  "\<not> in_write AtLock"
  "\<not> in_write (AtRUnlockReturn g)"
  "in_write AtRecheck"
  "in_write AtStartAgent"
  "in_write (AtStoreForward resp)"
  "in_write (AtStoreReverse resp)"
  "in_write (AtUnlockReturn r)"
  "\<not> in_write (Returned r)"
  by (simp_all add: in_write_def)

lemma pc_ok_lock [simp]:
  "pc_ok a (sh\<lparr>sh_readers := n\<rparr>) q = pc_ok a sh q"
  "pc_ok a (sh\<lparr>sh_writer := b\<rparr>) q = pc_ok a sh q"
  by (simp_all add: pc_ok_def result_ok_def unset_means_none_created_def split: pc.splits sum.splits)

lemma pc_ok_reverse [simp]:
  "pc_ok a (sh\<lparr>sh_sm := (sh_sm sh)\<lparr>gooseToADK := m\<rparr>\<rparr>) q = pc_ok a sh q"
  by (simp add: pc_ok_def result_ok_def unset_means_none_created_def split: pc.splits sum.splits)

lemma pc_ok_call_failed:
  "\<not> in_write q \<Longrightarrow> pc_ok a sh q \<Longrightarrow> pc_ok a (sh\<lparr>sh_net := t, sh_calls := sh_calls sh @ [Inl e]\<rparr>) q"
  by (auto simp: pc_ok_def in_write_def result_ok_def split: pc.splits sum.splits)

lemma pc_ok_call_succeeded:
  "\<not> in_write q \<Longrightarrow> pc_ok a sh q \<Longrightarrow> pc_ok a (sh\<lparr>sh_net := t, sh_calls := sh_calls sh @ [Inr resp]\<rparr>) q"
  by (auto simp: pc_ok_def in_write_def result_ok_def split: pc.splits sum.splits)

lemma pc_ok_store:
  "adkToGoose (sh_sm sh) a = None \<Longrightarrow> \<not> in_write q \<Longrightarrow> pc_ok a sh q \<Longrightarrow>
   pc_ok a (sh\<lparr>sh_sm := (sh_sm sh)\<lparr>adkToGoose := (adkToGoose (sh_sm sh))(a \<mapsto> g)\<rparr>\<rparr>) q"
  by (auto simp: pc_ok_def in_write_def result_ok_def split: pc.splits sum.splits)

text \<open>The write lock admits one goroutine: a step within, into and out of the statements
  under the lock.\<close>

lemma one_writer_keep:
  "one_writer pcs w \<Longrightarrow> i < length pcs \<Longrightarrow> in_write p = in_write (pcs ! i) \<Longrightarrow>
   one_writer (pcs[i := p]) w"
  unfolding one_writer_def by (auto simp: nth_list_update split: if_splits)

lemma one_writer_enter:
  "one_writer pcs False \<Longrightarrow> i < length pcs \<Longrightarrow> in_write p \<Longrightarrow> one_writer (pcs[i := p]) True"
  unfolding one_writer_def by (auto simp: nth_list_update split: if_splits)

lemma one_writer_leave:
  "one_writer pcs w \<Longrightarrow> i < length pcs \<Longrightarrow> in_write (pcs ! i) \<Longrightarrow> \<not> in_write p \<Longrightarrow>
   one_writer (pcs[i := p]) False"
  unfolding one_writer_def by (auto simp: nth_list_update split: if_splits)

lemma one_writer_others:
  "one_writer pcs w \<Longrightarrow> i < length pcs \<Longrightarrow> j < length pcs \<Longrightarrow> in_write (pcs ! i) \<Longrightarrow> j \<noteq> i \<Longrightarrow>
   \<not> in_write (pcs ! j)"
  unfolding one_writer_def by blast

lemma others_ok:
  assumes "\<forall>j < length pcs. pc_ok a sh (pcs ! j)"
    and "\<And>j. j < length pcs \<Longrightarrow> j \<noteq> i \<Longrightarrow> pc_ok a sh (pcs ! j) \<Longrightarrow> pc_ok a sh' (pcs ! j)"
    and "pc_ok a sh' p"
  shows "\<forall>j < length (pcs[i := p]). pc_ok a sh' (pcs[i := p] ! j)"
proof (intro allI impI)
  fix j
  assume "j < length (pcs[i := p])"
  then have j: "j < length pcs" by simp
  show "pc_ok a sh' (pcs[i := p] ! j)"
  proof (cases "j = i")
    case True
    with j assms(3) show ?thesis by simp
  next
    case False
    with j assms(1,2) show ?thesis by simp
  qed
qed

lemma one_writer_held:
  "one_writer pcs w \<Longrightarrow> i < length pcs \<Longrightarrow> in_write (pcs ! i) \<Longrightarrow> w"
  unfolding one_writer_def by blast

lemma calls_ok_lock [simp]:
  "calls_ok a (sh\<lparr>sh_readers := n\<rparr>) = calls_ok a sh"
  by (simp add: calls_ok_def unset_means_none_created_def)

text \<open>Every step keeps the invariant, whichever goroutine takes it.\<close>

lemma step_inv:
  assumes inv: "call_inv a (pcs, sh)"
    and i: "i < length pcs"
    and step: "step_thread lib c a (pcs ! i) sh = Some (p, sh')"
  shows "call_inv a (pcs[i := p], sh')"
proof -
  from inv have ow: "one_writer pcs (sh_writer sh)"
    and co: "calls_ok a sh"
    and ok: "\<forall>j < length pcs. pc_ok a sh (pcs ! j)"
    by (simp_all add: call_inv_def)
  from ok i have oki: "pc_ok a sh (pcs ! i)" by simp
  have rest: "\<not> in_write (pcs ! j)" if "in_write (pcs ! i)" "j < length pcs" "j \<noteq> i" for j
    using ow i that one_writer_others by blast
  show ?thesis
  proof (cases "pcs ! i")
    case AtRLock
    with step have p: "p = AtLookup" and sh': "sh' = sh\<lparr>sh_readers := Suc (sh_readers sh)\<rparr>"
      by (auto split: if_splits)
    have "one_writer (pcs[i := p]) (sh_writer sh')"
      using ow i AtRLock by (auto intro!: one_writer_keep simp: p sh')
    moreover have "calls_ok a sh'"
      using co by (simp add: sh')
    moreover have "\<forall>j < length (pcs[i := p]). pc_ok a sh' (pcs[i := p] ! j)"
      using ok by (intro others_ok [where sh = sh]) (simp_all add: sh' p)
    ultimately show ?thesis by (simp add: call_inv_def)
  next
    case AtLookup
    with step have
      p: "p = (case adkToGoose (sh_sm sh) a of Some g \<Rightarrow> AtRUnlockReturn g | None \<Rightarrow> AtRUnlock)"
      and sh': "sh' = sh"
      by auto
    have "one_writer (pcs[i := p]) (sh_writer sh')"
      using ow i AtLookup by (auto intro!: one_writer_keep simp: p sh' split: option.splits)
    moreover have "calls_ok a sh'"
      using co by (simp add: sh')
    moreover have "\<forall>j < length (pcs[i := p]). pc_ok a sh' (pcs[i := p] ! j)"
      using ok by (intro others_ok [where sh = sh]) (simp_all add: sh' p split: option.splits)
    ultimately show ?thesis by (simp add: call_inv_def)
  next
    case (AtRUnlockReturn g)
    with step have p: "p = Returned (Inr g)" and sh': "sh' = sh\<lparr>sh_readers := sh_readers sh - 1\<rparr>"
      by auto
    have "one_writer (pcs[i := p]) (sh_writer sh')"
      using ow i AtRUnlockReturn by (auto intro!: one_writer_keep simp: p sh')
    moreover have "calls_ok a sh'"
      using co by (simp add: sh')
    moreover have "\<forall>j < length (pcs[i := p]). pc_ok a sh' (pcs[i := p] ! j)"
      using ok oki AtRUnlockReturn
      by (intro others_ok [where sh = sh]) (simp_all add: sh' p)
    ultimately show ?thesis by (simp add: call_inv_def)
  next
    case AtRUnlock
    with step have p: "p = AtLock" and sh': "sh' = sh\<lparr>sh_readers := sh_readers sh - 1\<rparr>"
      by auto
    have "one_writer (pcs[i := p]) (sh_writer sh')"
      using ow i AtRUnlock by (auto intro!: one_writer_keep simp: p sh')
    moreover have "calls_ok a sh'"
      using co by (simp add: sh')
    moreover have "\<forall>j < length (pcs[i := p]). pc_ok a sh' (pcs[i := p] ! j)"
      using ok by (intro others_ok [where sh = sh]) (simp_all add: sh' p)
    ultimately show ?thesis by (simp add: call_inv_def)
  next
    case AtLock
    with step have free: "\<not> sh_writer sh" and p: "p = AtRecheck"
      and sh': "sh' = sh\<lparr>sh_writer := True\<rparr>"
      by (auto split: if_splits)
    have "one_writer (pcs[i := p]) (sh_writer sh')"
      using ow i free by (auto intro!: one_writer_enter simp: p sh')
    moreover have "calls_ok a sh'"
      using co by (simp add: sh' calls_ok_def unset_means_none_created_def)
    moreover have "\<forall>j < length (pcs[i := p]). pc_ok a sh' (pcs[i := p] ! j)"
      using ok co free
      by (intro others_ok [where sh = sh])
         (simp_all add: sh' p calls_ok_def unset_means_none_created_def)
    ultimately show ?thesis by (simp add: call_inv_def)
  next
    case AtRecheck
    with step have
      p: "p = (case adkToGoose (sh_sm sh) a of Some g \<Rightarrow> AtUnlockReturn (Inr g) | None \<Rightarrow> AtStartAgent)"
      and sh': "sh' = sh"
      by auto
    have "one_writer (pcs[i := p]) (sh_writer sh')"
      using ow i AtRecheck by (auto intro!: one_writer_keep simp: p sh' split: option.splits)
    moreover have "calls_ok a sh'"
      using co by (simp add: sh')
    moreover have "\<forall>j < length (pcs[i := p]). pc_ok a sh' (pcs[i := p] ! j)"
      using ok oki AtRecheck
      by (intro others_ok [where sh = sh])
         (simp_all add: sh' p unset_means_none_created_def split: option.splits)
    ultimately show ?thesis by (simp add: call_inv_def)
  next
    case AtStartAgent
    then have w: "in_write (pcs ! i)" by (simp add:)
    with ow i have held: "sh_writer sh" by (rule one_writer_held)
    from oki AtStartAgent have unset: "adkToGoose (sh_sm sh) a = None" and none: "created sh = []"
      by simp_all
    obtain r t' where call:
      "StartAgent lib c (sh_net sh) \<lparr>sar_WorkingDir = workingDir (sh_sm sh), sar_RecipeID = ''''\<rparr> = (r, t')"
      by (cases "StartAgent lib c (sh_net sh) \<lparr>sar_WorkingDir = workingDir (sh_sm sh), sar_RecipeID = ''''\<rparr>") auto
    show ?thesis
    proof (cases r)
      case (Inl err)
      with step AtStartAgent call have
        p: "p = AtUnlockReturn (Inl (Errorf_w (''start goose agent for ADK session '' @ a @ '': '') err))"
        and sh': "sh' = sh\<lparr>sh_net := t', sh_calls := sh_calls sh @ [Inl err]\<rparr>"
        by auto
      have "one_writer (pcs[i := p]) (sh_writer sh')"
        using ow i w by (auto intro!: one_writer_keep simp: p sh')
      moreover have "calls_ok a sh'"
        using co held by (simp add: sh' calls_ok_def)
      moreover have "\<forall>j < length (pcs[i := p]). pc_ok a sh' (pcs[i := p] ! j)"
      proof (intro others_ok [where sh = sh])
        show "\<forall>j < length pcs. pc_ok a sh (pcs ! j)" by (rule ok)
        show "pc_ok a sh' (pcs ! j)" if "j < length pcs" "j \<noteq> i" "pc_ok a sh (pcs ! j)" for j
          unfolding sh' using rest [OF w that(1,2)] that(3) by (rule pc_ok_call_failed)
        show "pc_ok a sh' p"
          using none by (simp add: p sh' unset_means_none_created_def)
      qed
      ultimately show ?thesis by (simp add: call_inv_def)
    next
      case (Inr resp)
      with step AtStartAgent call have p: "p = AtStoreForward resp"
        and sh': "sh' = sh\<lparr>sh_net := t', sh_calls := sh_calls sh @ [Inr resp]\<rparr>"
        by auto
      have "one_writer (pcs[i := p]) (sh_writer sh')"
        using ow i w by (auto intro!: one_writer_keep simp: p sh')
      moreover have "calls_ok a sh'"
        using held unset none by (simp add: sh' calls_ok_def)
      moreover have "\<forall>j < length (pcs[i := p]). pc_ok a sh' (pcs[i := p] ! j)"
      proof (intro others_ok [where sh = sh])
        show "\<forall>j < length pcs. pc_ok a sh (pcs ! j)" by (rule ok)
        show "pc_ok a sh' (pcs ! j)" if "j < length pcs" "j \<noteq> i" "pc_ok a sh (pcs ! j)" for j
          unfolding sh' using rest [OF w that(1,2)] that(3) by (rule pc_ok_call_succeeded)
        show "pc_ok a sh' p"
          using none unset by (simp add: p sh')
      qed
      ultimately show ?thesis by (simp add: call_inv_def)
    qed
  next
    case (AtStoreForward resp)
    then have w: "in_write (pcs ! i)" by (simp add:)
    with ow i have held: "sh_writer sh" by (rule one_writer_held)
    from oki AtStoreForward have unset: "adkToGoose (sh_sm sh) a = None" and one: "created sh = [resp]"
      by simp_all
    from step AtStoreForward have p: "p = AtStoreReverse resp"
      and sh': "sh' = sh\<lparr>sh_sm := (sh_sm sh)\<lparr>adkToGoose := (adkToGoose (sh_sm sh))(a \<mapsto> resp_ID resp)\<rparr>\<rparr>"
      by auto
    have "one_writer (pcs[i := p]) (sh_writer sh')"
      using ow i w by (auto intro!: one_writer_keep simp: p sh')
    moreover have "calls_ok a sh'"
      using held one by (simp add: sh' calls_ok_def)
    moreover have "\<forall>j < length (pcs[i := p]). pc_ok a sh' (pcs[i := p] ! j)"
    proof (intro others_ok [where sh = sh])
      show "\<forall>j < length pcs. pc_ok a sh (pcs ! j)" by (rule ok)
      show "pc_ok a sh' (pcs ! j)" if "j < length pcs" "j \<noteq> i" "pc_ok a sh (pcs ! j)" for j
        unfolding sh' using unset rest [OF w that(1,2)] that(3) by (rule pc_ok_store)
      show "pc_ok a sh' p"
        by (simp add: p sh')
    qed
    ultimately show ?thesis by (simp add: call_inv_def)
  next
    case (AtStoreReverse resp)
    then have w: "in_write (pcs ! i)" by (simp add:)
    with ow i have held: "sh_writer sh" by (rule one_writer_held)
    from oki AtStoreReverse have set: "adkToGoose (sh_sm sh) a = Some (resp_ID resp)"
      by simp
    from step AtStoreReverse have p: "p = AtUnlockReturn (Inr (resp_ID resp))"
      and sh': "sh' = sh\<lparr>sh_sm := (sh_sm sh)\<lparr>gooseToADK := (gooseToADK (sh_sm sh))(resp_ID resp \<mapsto> a)\<rparr>\<rparr>"
      by auto
    have "one_writer (pcs[i := p]) (sh_writer sh')"
      using ow i w by (auto intro!: one_writer_keep simp: p sh')
    moreover have "calls_ok a sh'"
      using co held by (simp add: sh' calls_ok_def)
    moreover have "\<forall>j < length (pcs[i := p]). pc_ok a sh' (pcs[i := p] ! j)"
      using ok set
      by (intro others_ok [where sh = sh])
         (simp_all add: sh' p unset_means_none_created_def)
    ultimately show ?thesis by (simp add: call_inv_def)
  next
    case (AtUnlockReturn r)
    then have w: "in_write (pcs ! i)" by (simp add:)
    from oki AtUnlockReturn have u: "unset_means_none_created a sh" and res: "result_ok a sh r"
      by simp_all
    from step AtUnlockReturn have p: "p = Returned r" and sh': "sh' = sh\<lparr>sh_writer := False\<rparr>"
      by auto
    have "one_writer (pcs[i := p]) (sh_writer sh')"
      using ow i w by (auto intro!: one_writer_leave simp: p sh')
    moreover have "calls_ok a sh'"
      using co u by (simp add: sh' calls_ok_def unset_means_none_created_def)
    moreover have "\<forall>j < length (pcs[i := p]). pc_ok a sh' (pcs[i := p] ! j)"
      using ok res
      by (intro others_ok [where sh = sh]) (simp_all add: sh' p)
    ultimately show ?thesis by (simp add: call_inv_def)
  next
    case (Returned r)
    with step show ?thesis by simp
  qed
qed

text \<open>What every step keeps, every run keeps.\<close>

lemma exec_preserves:
  assumes step: "\<And>pcs sh i p sh'. I (pcs, sh) \<Longrightarrow> i < length pcs \<Longrightarrow>
      step_thread lib c a (pcs ! i) sh = Some (p, sh') \<Longrightarrow> I (pcs[i := p], sh')"
    and start: "I cfg"
  shows "I (exec lib c a sched cfg)"
  using start
proof (induction sched arbitrary: cfg)
  case Nil
  then show ?case by simp
next
  case (Cons i sched)
  obtain pcs sh where cfg: "cfg = (pcs, sh)" by (cases cfg)
  show ?case
  proof (cases "i < length pcs")
    case False
    with Cons cfg show ?thesis by simp
  next
    case True
    show ?thesis
    proof (cases "step_thread lib c a (pcs ! i) sh")
      case None
      with True Cons cfg show ?thesis by simp
    next
      case (Some next_cfg)
      obtain p sh' where next_cfg: "next_cfg = (p, sh')" by (cases next_cfg)
      with Some Cons.prems cfg True have "I (pcs[i := p], sh')"
        using step by blast
      then have "I (exec lib c a sched (pcs[i := p], sh'))"
        by (rule Cons.IH)
      with True Some next_cfg cfg show ?thesis by simp
    qed
  qed
qed

lemma exec_inv: "call_inv a cfg \<Longrightarrow> call_inv a (exec lib c a sched cfg)"
  using step_inv by (rule exec_preserves)

lemma exec_length: "length (fst (exec lib c a sched cfg)) = length (fst cfg)"
proof (induction sched arbitrary: cfg)
  case Nil
  then show ?case by simp
next
  case (Cons i sched)
  obtain pcs sh where cfg: "cfg = (pcs, sh)" by (cases cfg)
  show ?case
    using Cons.IH [of "(pcs, sh)"] Cons.IH [of "(pcs[i := p], sh')" for p sh']
    by (auto simp: cfg split: option.splits)
qed

lemma initial_inv:
  "adkToGoose sm a = None \<Longrightarrow> call_inv a (replicate n AtRLock, initial sm t)"
  by (auto simp: call_inv_def one_writer_def calls_ok_def initial_def created_def
        unset_means_none_created_def)

lemma no_failure_created:
  "\<not> some_call_failed sh \<Longrightarrow> length (created sh) = length (sh_calls sh)"
  by (simp add: some_call_failed_def created_def)

text \<open>No deadlock: the mutex counts its readers, so while a goroutine has not returned
  some goroutine can take a step, and every step brings its goroutine nearer to its
  return.\<close>

lemma in_read_simps [simp]:
  "\<not> in_read AtRLock"
  "in_read AtLookup"
  "in_read AtRUnlock"
  "\<not> in_read AtLock"
  "in_read (AtRUnlockReturn g)"
  "\<not> in_read AtRecheck"
  "\<not> in_read AtStartAgent"
  "\<not> in_read (AtStoreForward resp)"
  "\<not> in_read (AtStoreReverse resp)"
  "\<not> in_read (AtUnlockReturn r)"
  "\<not> in_read (Returned r)"
  by (simp_all add: in_read_def)

lemma filter_update_length:
  "i < length xs \<Longrightarrow>
   length (filter P (xs[i := x])) + (if P (xs ! i) then 1 else 0) =
   length (filter P xs) + (if P x then 1 else 0)"
proof (induction xs arbitrary: i)
  case Nil
  then show ?case by simp
next
  case (Cons y ys)
  then show ?case by (cases i) auto
qed

lemma step_readers:
  assumes "readers_counted (pcs, sh)"
    and i: "i < length pcs"
    and step: "step_thread lib c a (pcs ! i) sh = Some (p, sh')"
  shows "readers_counted (pcs[i := p], sh')"
proof -
  from assms(1) have count: "sh_readers sh = length (filter in_read pcs)"
    by (simp add: readers_counted_def)
  note upd = filter_update_length [OF i, of in_read p]
  show ?thesis
    using step count upd
    by (cases "pcs ! i")
       (auto simp: readers_counted_def split: if_splits option.splits prod.splits sum.splits)
qed

lemma step_remaining:
  "step_thread lib c a p sh = Some (p', sh') \<Longrightarrow> remaining p' < remaining p"
  by (cases p) (auto split: if_splits option.splits prod.splits sum.splits)

lemma step_enabled:
  "in_write p \<or> in_read p \<or> (p = AtRLock \<and> \<not> sh_writer sh) \<or>
   (p = AtLock \<and> \<not> sh_writer sh \<and> sh_readers sh = 0) \<Longrightarrow>
   \<exists>p' sh'. step_thread lib c a p sh = Some (p', sh')"
  by (cases p) (auto split: prod.splits sum.splits)

lemma some_thread_enabled:
  assumes ow: "one_writer pcs (sh_writer sh)"
    and count: "sh_readers sh = length (filter in_read pcs)"
    and unfinished: "\<not> list_all is_Returned pcs"
  shows "\<exists>i < length pcs. \<exists>p sh'. step_thread lib c a (pcs ! i) sh = Some (p, sh')"
proof (cases "\<exists>i < length pcs. in_write (pcs ! i) \<or> in_read (pcs ! i)")
  case True
  then obtain i where "i < length pcs" "in_write (pcs ! i) \<or> in_read (pcs ! i)" by blast
  then show ?thesis
    using step_enabled [of "pcs ! i" sh lib c a] by blast
next
  case False
  then have free: "\<not> sh_writer sh"
    using ow by (auto simp: one_writer_def)
  from False have "\<forall>x \<in> set pcs. \<not> in_read x"
    by (auto simp: in_set_conv_nth)
  then have "filter in_read pcs = []"
    by (simp add: filter_empty_conv)
  with count have none: "sh_readers sh = 0" by simp
  from unfinished obtain i where i: "i < length pcs" and open_call: "\<not> is_Returned (pcs ! i)"
    by (auto simp: list_all_length)
  from False i have "\<not> in_write (pcs ! i)" "\<not> in_read (pcs ! i)" by blast+
  with open_call have "pcs ! i = AtRLock \<or> pcs ! i = AtLock"
    by (cases "pcs ! i") (simp_all add: is_Returned_def)
  with free none i show ?thesis
    using step_enabled [of "pcs ! i" sh lib c a] by blast
qed

lemma sum_list_update_less:
  "i < length xs \<Longrightarrow> f x < f (xs ! i) \<Longrightarrow>
   sum_list (map f (xs[i := x])) < (sum_list (map f xs) :: nat)"
proof (induction xs arbitrary: i)
  case Nil
  then show ?case by simp
next
  case (Cons y ys)
  then show ?case by (cases i) auto
qed

lemma can_finish:
  "call_inv a (pcs, sh) \<Longrightarrow> readers_counted (pcs, sh) \<Longrightarrow>
   \<exists>sched. list_all is_Returned (fst (exec lib c a sched (pcs, sh)))"
proof (induction "sum_list (map remaining pcs)" arbitrary: pcs sh rule: less_induct)
  case less
  show ?case
  proof (cases "list_all is_Returned pcs")
    case True
    then have "list_all is_Returned (fst (exec lib c a [] (pcs, sh)))" by simp
    then show ?thesis by blast
  next
    case False
    from less.prems have ow: "one_writer pcs (sh_writer sh)"
      and count: "sh_readers sh = length (filter in_read pcs)"
      by (simp_all add: call_inv_def readers_counted_def)
    from some_thread_enabled [OF ow count False, of lib c a]
    obtain i p sh' where i: "i < length pcs"
      and step: "step_thread lib c a (pcs ! i) sh = Some (p, sh')"
      by blast
    have "remaining p < remaining (pcs ! i)"
      using step by (rule step_remaining)
    with i have smaller: "sum_list (map remaining (pcs[i := p])) < sum_list (map remaining pcs)"
      by (rule sum_list_update_less)
    have "call_inv a (pcs[i := p], sh')"
      using less.prems(1) i step by (rule step_inv)
    moreover have "readers_counted (pcs[i := p], sh')"
      using less.prems(2) i step by (rule step_readers)
    ultimately obtain sched where "list_all is_Returned (fst (exec lib c a sched (pcs[i := p], sh')))"
      using less.hyps [OF smaller] by blast
    with i step have "list_all is_Returned (fst (exec lib c a (i # sched) (pcs, sh)))"
      by simp
    then show ?thesis by blast
  qed
qed

text \<open>No goroutine reads the table while another is at a statement under the write
  lock.\<close>

lemma exec_readers: "readers_counted cfg \<Longrightarrow> readers_counted (exec lib c a sched cfg)"
  using step_readers by (rule exec_preserves)

lemma filter_nth_nonempty: "i < length xs \<Longrightarrow> P (xs ! i) \<Longrightarrow> 0 < length (filter P xs)"
  by (metis filter_empty_conv length_greater_0_conv nth_mem)

lemma step_excludes:
  assumes held: "readers_counted (pcs, sh) \<and> (sh_writer sh \<longrightarrow> sh_readers sh = 0)"
    and i: "i < length pcs"
    and step: "step_thread lib c a (pcs ! i) sh = Some (p, sh')"
  shows "readers_counted (pcs[i := p], sh') \<and> (sh_writer sh' \<longrightarrow> sh_readers sh' = 0)"
proof
  from held i step show "readers_counted (pcs[i := p], sh')"
    using step_readers by blast
next
  from held have count: "sh_readers sh = length (filter in_read pcs)"
    by (simp add: readers_counted_def)
  have reading: "0 < sh_readers sh" if "in_read (pcs ! i)"
    using count i that filter_nth_nonempty [of i pcs in_read] by simp
  show "sh_writer sh' \<longrightarrow> sh_readers sh' = 0"
    using step held reading
    by (cases "pcs ! i") (auto split: if_splits option.splits prod.splits sum.splits)
qed

lemma no_reader_while_writing:
  assumes run: "exec lib c a sched (replicate n AtRLock, initial sm t) = (pcs, sh)"
    and unset: "adkToGoose sm a = None"
    and i: "i < n" and j: "j < n"
    and reading: "in_read (pcs ! i)"
  shows "\<not> in_write (pcs ! j)"
proof
  assume writing: "in_write (pcs ! j)"
  let ?I = "\<lambda>cfg. readers_counted cfg \<and> (sh_writer (snd cfg) \<longrightarrow> sh_readers (snd cfg) = 0)"
  have "?I (replicate n AtRLock, initial sm t)"
    by (simp add: readers_counted_def initial_def)
  then have "?I (exec lib c a sched (replicate n AtRLock, initial sm t))"
    using step_excludes by (intro exec_preserves [where I = ?I]) auto
  with run have count: "sh_readers sh = length (filter in_read pcs)"
    and excl: "sh_writer sh \<longrightarrow> sh_readers sh = 0"
    by (auto simp: readers_counted_def)
  have len: "length pcs = n"
    using exec_length [of lib c a sched "(replicate n AtRLock, initial sm t)"] run by simp
  have "call_inv a (pcs, sh)"
    using initial_inv [OF unset, of n t] exec_inv [of a _ lib c sched] run by metis
  then have "one_writer pcs (sh_writer sh)"
    by (simp add: call_inv_def)
  with writing j len have "sh_writer sh"
    using one_writer_held by blast
  moreover from reading i len count have "0 < sh_readers sh"
    using filter_nth_nonempty [of i pcs in_read] by simp
  ultimately show False
    using excl by simp
qed

text \<open>One goroutine alone runs through the statements to what \<open>GetOrCreate\<close>, taken as
  one function, computes: the same result, tables and transport, and a free mutex.\<close>

lemma single_call_is_GetOrCreate:
  "exec lib c a [0, 0, 0, 0, 0, 0, 0, 0, 0] ([AtRLock], initial sm t) = (pcs, sh) \<Longrightarrow>
   (pcs, sh_sm sh, sh_net sh) =
     (case GetOrCreate lib c sm t a of (r, sm', t') \<Rightarrow> ([Returned r], sm', t')) \<and>
   sh_readers sh = 0 \<and> \<not> sh_writer sh"
  by (auto simp: GetOrCreate_def initial_def split: option.splits prod.splits sum.splits)

text \<open>
  C2, as stated, fails: two callers for one unmapped external id both miss the first
  look-up; the session-start call of the first one to take the write lock fails, the
  second one's succeeds. The creation call was invoked twice, and one caller observes an
  error where the other observes a backend id.
\<close>

theorem C2_failed_creation_is_retried_counterexample:
  "fst (exec toy_lib toy_client ''a'' both_miss_first_lookup
     ([AtRLock, AtRLock], initial (NewSessionManager ''/tmp'') flaky_backend)) =
     [Returned (Inl (Error ''start goose agent for ADK session a: execute request: dial tcp 127.0.0.1:3000: connect: connection refused''
        (Some (Error ''execute request: dial tcp 127.0.0.1:3000: connect: connection refused''
          (Some (Error ''dial tcp 127.0.0.1:3000: connect: connection refused'' None)))))),
      Returned (Inr ''g'')] \<and>
   length (sh_calls (snd (exec toy_lib toy_client ''a'' both_miss_first_lookup
     ([AtRLock, AtRLock], initial (NewSessionManager ''/tmp'') flaky_backend)))) = 2"
  by (simp add: both_miss_first_lookup_def initial_def NewSessionManager_def flaky_backend_def
        toy_lib_def toy_client_def StartAgent_def doJSON_def Do_def with_secret_def
        with_content_type_def Header_Set_def Errorf_w_def Let_def)

text \<open>
  C2, amended: take any number of concurrent \<open>GetOrCreate\<close> calls for one external id that
  has no mapping, any backend, and any interleaving of their statements. At every point of
  the run at most one session-start call has succeeded, and every caller that has returned
  a backend id has returned the one in the forward table, which is the id that call
  returned. The run can always be continued until every caller has returned. Once all
  have returned, if no session-start call failed, the call was invoked exactly once and
  every caller has returned the same backend id.
\<close>

theorem C2_one_creation_for_unmapped_id:
  assumes unset: "adkToGoose sm a = None"
    and run: "exec lib c a sched (replicate n AtRLock, initial sm t) = (pcs, sh)"
  shows "length (created sh) \<le> 1 \<and>
         (\<forall>i < n. \<forall>g. pcs ! i = Returned (Inr g) \<longrightarrow>
            adkToGoose (sh_sm sh) a = Some g \<and> map resp_ID (created sh) = [g]) \<and>
         (\<exists>more. list_all is_Returned (fst (exec lib c a more (pcs, sh)))) \<and>
         (0 < n \<and> list_all is_Returned pcs \<and> \<not> some_call_failed sh \<longrightarrow>
            length (sh_calls sh) = 1 \<and> (\<exists>g. pcs = replicate n (Returned (Inr g))))"
proof -
  have start: "call_inv a (replicate n AtRLock, initial sm t)"
    using unset by (rule initial_inv)
  have inv: "call_inv a (pcs, sh)"
    using exec_inv [OF start, of lib c sched] run by simp
  have "readers_counted (replicate n AtRLock, initial sm t)"
    by (simp add: readers_counted_def initial_def)
  then have counted: "readers_counted (pcs, sh)"
    using exec_readers [of "(replicate n AtRLock, initial sm t)" lib c a sched] run by simp
  have len: "length pcs = n"
    using exec_length [of lib c a sched "(replicate n AtRLock, initial sm t)"] run by simp
  from inv have co: "calls_ok a sh" and ok: "\<forall>j < length pcs. pc_ok a sh (pcs ! j)"
    by (simp_all add: call_inv_def)
  have one: "length (created sh) \<le> 1"
    using co by (simp add: calls_ok_def)
  have same: "adkToGoose (sh_sm sh) a = Some g \<and> map resp_ID (created sh) = [g]"
    if "i < n" "pcs ! i = Returned (Inr g)" for i g
  proof -
    from ok that len have "pc_ok a sh (Returned (Inr g))" by metis
    then have "adkToGoose (sh_sm sh) a = Some g" by simp
    with co show ?thesis by (simp add: calls_ok_def)
  qed
  have finish: "\<exists>more. list_all is_Returned (fst (exec lib c a more (pcs, sh)))"
    using inv counted by (rule can_finish)
  have all: "length (sh_calls sh) = 1 \<and> (\<exists>g. pcs = replicate n (Returned (Inr g)))"
    if pos: "0 < n" and fin: "list_all is_Returned pcs" and nofail: "\<not> some_call_failed sh"
  proof -
    have each: "\<exists>g. pcs ! j = Returned (Inr g) \<and> adkToGoose (sh_sm sh) a = Some g" if "j < n" for j
    proof -
      from fin that len have "is_Returned (pcs ! j)" by (simp add: list_all_length)
      then obtain r where r: "pcs ! j = Returned r"
        by (cases "pcs ! j") (simp_all add: is_Returned_def)
      with ok that len have "result_ok a sh r" by (metis pc_ok_simps(11))
      with nofail r show ?thesis by (cases r) simp_all
    qed
    from each [OF pos] obtain g where g: "adkToGoose (sh_sm sh) a = Some g" by blast
    with each have "\<forall>j < n. pcs ! j = Returned (Inr g)" by fastforce
    with len have "pcs = replicate n (Returned (Inr g))"
      by (simp add: list_eq_iff_nth_eq)
    moreover from g co have "length (created sh) = 1"
      by (metis calls_ok_def length_map length_Cons list.size(3) One_nat_def)
    with nofail have "length (sh_calls sh) = 1" by (simp add: no_failure_created)
    ultimately show ?thesis by blast
  qed
  from one same finish all show ?thesis by blast
qed

theorem C2_one_creation_for_unmapped_id_witness:
  "adkToGoose (NewSessionManager ''/tmp'') ''a'' = None \<and>
   fst (exec toy_lib toy_client ''a'' both_miss_first_lookup
     (replicate (Suc (Suc 0)) AtRLock, initial (NewSessionManager ''/tmp'') fresh_backend)) =
     [Returned (Inr ''g''), Returned (Inr ''g'')] \<and>
   length (created (snd (exec toy_lib toy_client ''a'' both_miss_first_lookup
     (replicate (Suc (Suc 0)) AtRLock, initial (NewSessionManager ''/tmp'') fresh_backend)))) \<le> 1 \<and>
   length (sh_calls (snd (exec toy_lib toy_client ''a'' both_miss_first_lookup
     (replicate (Suc (Suc 0)) AtRLock, initial (NewSessionManager ''/tmp'') fresh_backend)))) = 1"
proof -
  let ?run = "exec toy_lib toy_client ''a'' both_miss_first_lookup
    (replicate (Suc (Suc 0)) AtRLock, initial (NewSessionManager ''/tmp'') fresh_backend)"
  have unset: "adkToGoose (NewSessionManager ''/tmp'') ''a'' = None"
    by (simp add: NewSessionManager_def)
  have returned: "fst ?run = [Returned (Inr ''g''), Returned (Inr ''g'')]"
    and quiet: "\<not> some_call_failed (snd ?run)"
    by (simp_all add: both_miss_first_lookup_def initial_def NewSessionManager_def fresh_backend_def
          toy_lib_def toy_client_def StartAgent_def doJSON_def Do_def with_secret_def
          with_content_type_def Header_Set_def Let_def some_call_failed_def)
  have run: "?run = (fst ?run, snd ?run)"
    by simp
  note facts = C2_one_creation_for_unmapped_id [OF unset run]
  from facts have one: "length (created (snd ?run)) \<le> 1"
    by (rule conjunct1)
  from returned have "list_all is_Returned (fst ?run)"
    by (simp add: is_Returned_def)
  with facts quiet have "length (sh_calls (snd ?run)) = 1"
    by blast
  with unset returned one show ?thesis
    by blast
qed

section \<open>Stop among concurrent calls\<close>



lemma holds_read_lookup_simps [simp]:
  "\<not> holds_read (InGetGooseSessionID a GetIDAtRLock)"
  "holds_read (InGetGooseSessionID a GetIDAtLookup)"
  "holds_read (InGetGooseSessionID a (GetIDAtRUnlockReturn r))"
  "\<not> holds_read (InGetGooseSessionID a (GetIDReturned r))"
  "\<not> holds_read (InListMappedSessions ListAtRLock)"
  "holds_read (InListMappedSessions ListAtCopy)"
  "holds_read (InListMappedSessions (ListAtRUnlockReturn out))"
  "\<not> holds_read (InListMappedSessions (ListReturned out))"
  by simp_all





lemma exec_pool_length:
  "exec_pool lib c sched (gs, sh) = (gs', sh') \<Longrightarrow> length gs' = length gs"
proof (induction sched arbitrary: gs sh)
  case Nil
  then show ?case by simp
next
  case (Cons i sched)
  then show ?case
    by (auto split: if_splits option.splits)
qed










end
